theory Spec2Isabelle
  imports Complex_Main "HOL-Library.Log_Nat"
begin

section \<open>Numbers and errors\<close>

text \<open>
  The program computes with Python floats. A float is modelled as the real number it
  denotes, and every arithmetic operation of the source returns the exact result passed
  through a rounding function \<open>rnd\<close>, which is a parameter of the model. Two roundings are
  used: \<open>exact\<close> (no rounding at all, the arithmetic of the mathematical formulas) and
  \<open>round_double\<close> (IEEE-754 binary64 round-to-nearest, ties to even, for results in the
  normal range; overflow, subnormals, infinities and NaN are not modelled). Integers of
  the input (beats per bar) are \<open>int\<close>; products of integers are exact, as in Python.
\<close>

type_synonym rounding = "real \<Rightarrow> real"

definition exact :: rounding where
  "exact x = x"

definition round_half_even :: "real \<Rightarrow> int" where
  "round_half_even x =
     (let f = \<lfloor>x\<rfloor>; r = x - of_int f
      in if r < 1 / 2 then f
         else if 1 / 2 < r then f + 1
         else if even f then f else f + 1)"

definition dexp :: "real \<Rightarrow> int" where
  \<comment> \<open>the binary exponent of a non-zero number: \<open>2 powi dexp x \<le> \<bar>x\<bar> < 2 powi (dexp x + 1)\<close>\<close>
  "dexp x =
     (let a = \<bar>x\<bar>
      in if 1 \<le> a then bitlen \<lfloor>a\<rfloor> - 1
         else (let b = bitlen \<lfloor>1 / a\<rfloor>
               in if 2 powi (1 - b) \<le> a then 1 - b else - b))"

definition round_double :: rounding where
  \<comment> \<open>the nearest number with a 53-bit significand, ties to the even significand\<close>
  "round_double x =
     (if x = 0 then 0
      else (let e = dexp x - 52
            in of_int (round_half_even (x / 2 powi e)) * 2 powi e))"

datatype py_error =
    UnboundLocalError string
  | ZeroDivisionError
  | IndexError
  | ValueError
  | TypeError

definition fdiv :: "rounding \<Rightarrow> real \<Rightarrow> real \<Rightarrow> py_error + real" where
  \<comment> \<open>Python's \<open>a / b\<close>\<close>
  "fdiv rnd a b = (if b = 0 then Inl ZeroDivisionError else Inr (rnd (a / b)))"

definition fmod :: "rounding \<Rightarrow> real \<Rightarrow> real \<Rightarrow> py_error + real" where
  \<comment> \<open>Python's \<open>a % b\<close> on floats: the result has the sign of \<open>b\<close>\<close>
  "fmod rnd a b =
     (if b = 0 then Inl ZeroDivisionError
      else Inr (rnd (a - b * of_int \<lfloor>a / b\<rfloor>)))"

definition py_int :: "real \<Rightarrow> int" where
  \<comment> \<open>Python's \<open>int(x)\<close> on a float: truncation towards zero\<close>
  "py_int x = (if 0 \<le> x then \<lfloor>x\<rfloor> else \<lceil>x\<rceil>)"

section \<open>Data model\<close>

text \<open>
  One entry of \<open>data['map']\<close>: \<open>{'sig': [beats_per_bar, beat_unit], 'bpm': ..., 'bars': ...}\<close>.
  The entries are taken as well-typed: the three keys are present, \<open>sig\<close> holds two
  integers, \<open>bpm\<close> and \<open>bars\<close> are numbers.
\<close>

record descriptor =
  d_sig :: "int \<times> int"
  d_bpm :: real
  d_bars :: real

text \<open>
  The value stored under the key \<open>'next'\<close> of a segment dictionary: \<open>None\<close> (or no such
  key), the small dictionary \<open>{'sig': sig, 'bpm': bpm}\<close>, or a reference to another
  segment dictionary. Every segment dictionary sits at exactly one position of the
  segment list, which is never reordered, so a reference is the index of its target
  in that list.
\<close>

datatype nxt =
    NoNext
  | NextInfo "int \<times> int" real
  | NextSeg nat

record segment =
  seg_start :: real
  seg_end :: real
  seg_dur :: real
  seg_sig :: "int \<times> int"
  seg_bpm :: real
  seg_next :: nxt

text \<open>
  The segment dictionaries of \<open>signature_visualizer.py\<close> carry the key \<open>'last'\<close> in
  addition; their key \<open>'next'\<close> is added later by the driver (\<open>NoNext\<close> until then, which
  \<open>.get('next')\<close> does not tell from \<open>None\<close>).
\<close>

record sv_segment = segment +
  seg_last :: bool

definition seg_core :: "'a segment_scheme \<Rightarrow> real \<times> real \<times> real \<times> (int \<times> int) \<times> real" where
  "seg_core s = (seg_start s, seg_end s, seg_dur s, seg_sig s, seg_bpm s)"

section \<open>Timeline builder of polygonal_metre.py\<close>

text \<open>
  The variables that the loop body of \<open>_get_segments\<close> binds and that are read after the
  loop. They are unbound until the first iteration has run.
\<close>

record pm_locals =
  pl_sig :: "int \<times> int"
  pl_bpm :: real
  pl_bar_duration :: real
  pl_segment_duration :: real

record pm_state =
  pm_current_time :: real
  pm_segments :: "segment list"
  pm_bound :: "pm_locals option"

fun pm_loop :: "rounding \<Rightarrow> nat \<Rightarrow> descriptor list \<Rightarrow> pm_state \<Rightarrow> py_error + pm_state" where
  "pm_loop rnd i [] st = Inr st"
| "pm_loop rnd i (d # ds) st =
     (let sig = d_sig d; bpm = d_bpm d; bars = d_bars d;
          beats_per_bar = fst sig
      in case fdiv rnd (of_int (beats_per_bar * 60)) bpm of
           Inl e \<Rightarrow> Inl e
         | Inr bar_duration \<Rightarrow>
             (let segment_duration = rnd (bars * bar_duration);
                  segment_end = rnd (pm_current_time st + segment_duration);
                  segs1 = (if pm_segments st \<noteq> []
                           then (pm_segments st)
                                  [i - 1 := (pm_segments st ! (i - 1))\<lparr>seg_next := NextInfo sig bpm\<rparr>]
                           else pm_segments st);
                  segs2 = segs1 @
                    [\<lparr>seg_start = pm_current_time st, seg_end = segment_end,
                      seg_dur = segment_duration, seg_sig = sig, seg_bpm = bpm,
                      seg_next = NoNext\<rparr>]
              in pm_loop rnd (Suc i) ds
                   \<lparr>pm_current_time = rnd (pm_current_time st + segment_duration),
                    pm_segments = segs2,
                    pm_bound = Some \<lparr>pl_sig = sig, pl_bpm = bpm,
                                     pl_bar_duration = bar_duration,
                                     pl_segment_duration = segment_duration\<rparr>\<rparr>))"

definition pm_init :: pm_state where
  "pm_init = \<lparr>pm_current_time = 0, pm_segments = [], pm_bound = None\<rparr>"

definition pm_get_segments :: "rounding \<Rightarrow> descriptor list \<Rightarrow> py_error + segment list \<times> real" where
  "pm_get_segments rnd ds =
     (case pm_loop rnd 0 ds pm_init of
        Inl e \<Rightarrow> Inl e
      | Inr st \<Rightarrow>
          (case pm_bound st of
             None \<Rightarrow> Inl (UnboundLocalError ''bar_duration'')
           | Some l \<Rightarrow>
               (let dummy = \<lparr>seg_start = pm_current_time st,
                             seg_end = rnd (pm_current_time st + pl_bar_duration l),
                             seg_dur = pl_bar_duration l, seg_sig = pl_sig l,
                             seg_bpm = pl_bpm l, seg_next = NoNext\<rparr>
                in if pm_segments st = [] then Inl IndexError
                   else (let n = length (pm_segments st);
                             segs1 = (pm_segments st)
                                       [n - 1 := (pm_segments st ! (n - 1))\<lparr>seg_next := NextSeg n\<rparr>];
                             segs2 = segs1 @ [dummy];
                             final_time = rnd (pm_current_time st + pl_segment_duration l)
                         in Inr (segs2, final_time)))))"

section \<open>Timeline builder of signature_visualizer.py\<close>

text \<open>
  Here \<open>_get_segments\<close> is a generator. It yields segment dictionaries and then either
  raises or yields one last value, the final time, and stops. Its run is modelled by the
  segments yielded, in order, and how it ended.
\<close>

record sv_locals =
  sl_sig :: "int \<times> int"
  sl_bpm :: real
  sl_segment_duration :: real

record sv_state =
  sv_current_time :: real
  sv_yielded :: "sv_segment list"
  sv_bound :: "sv_locals option"

fun sv_loop :: "rounding \<Rightarrow> descriptor list \<Rightarrow> sv_state \<Rightarrow> sv_state \<times> py_error option" where
  "sv_loop rnd [] st = (st, None)"
| "sv_loop rnd (d # ds) st =
     (let sig = d_sig d; bpm = d_bpm d; bars = d_bars d;
          beats_per_bar = fst sig
      in case fdiv rnd 60 bpm of
           Inl e \<Rightarrow> (st, Some e)
         | Inr beat_duration \<Rightarrow>
             (let segment_duration = rnd (rnd (bars * of_int beats_per_bar) * beat_duration);
                  seg = \<lparr>seg_start = sv_current_time st,
                         seg_end = rnd (sv_current_time st + segment_duration),
                         seg_dur = segment_duration, seg_sig = sig, seg_bpm = bpm,
                         seg_next = NoNext, seg_last = False\<rparr>
              in sv_loop rnd ds
                   \<lparr>sv_current_time = rnd (sv_current_time st + segment_duration),
                    sv_yielded = sv_yielded st @ [seg],
                    sv_bound = Some \<lparr>sl_sig = sig, sl_bpm = bpm,
                                     sl_segment_duration = segment_duration\<rparr>\<rparr>))"

definition sv_init :: sv_state where
  "sv_init = \<lparr>sv_current_time = 0, sv_yielded = [], sv_bound = None\<rparr>"

definition sv_get_segments :: "rounding \<Rightarrow> descriptor list \<Rightarrow> sv_segment list \<times> (py_error + real)" where
  "sv_get_segments rnd ds =
     (case sv_loop rnd ds sv_init of
        (st, Some e) \<Rightarrow> (sv_yielded st, Inl e)
      | (st, None) \<Rightarrow>
          (case sv_bound st of
             None \<Rightarrow> (sv_yielded st, Inl (UnboundLocalError ''sig''))
           | Some l \<Rightarrow>
               (case fdiv rnd (of_int (fst (sl_sig l) * 60)) (sl_bpm l) of
                  Inl e \<Rightarrow> (sv_yielded st, Inl e)
                | Inr bar \<Rightarrow>
                    (let dummy = \<lparr>seg_start = sv_current_time st,
                                  seg_end = rnd (sv_current_time st + bar),
                                  seg_dur = bar, seg_sig = sl_sig l, seg_bpm = sl_bpm l,
                                  seg_next = NoNext, seg_last = True\<rparr>
                     in (sv_yielded st @ [dummy],
                         Inr (rnd (sv_current_time st + sl_segment_duration l)))))))"

text \<open>
  The caller's \<open>*time_segments, current_time = _get_segments(data)\<close> runs the generator
  to its end: an exception of the generator is the result, and otherwise the last value
  is split off.
\<close>

definition sv_unpack :: "sv_segment list \<times> (py_error + real) \<Rightarrow> py_error + sv_segment list \<times> real" where
  "sv_unpack g = (case snd g of Inl e \<Rightarrow> Inl e | Inr t \<Rightarrow> Inr (fst g, t))"

section \<open>Layers\<close>

text \<open>
  A clip of the media library is a layer with a start time, a duration and a content.
  A text clip is represented by the data its text is formatted from, a \<open>VideoClip\<close> by the
  values its frame function has captured; the frame functions themselves are defined
  below as functions of these values and the local time \<open>t\<close>. Rasterisation (image
  size, vertex coordinates, anti-aliasing) belongs to the imaging library and is left
  out: a frame is represented by what is drawn into it.
\<close>

type_synonym color = "int \<times> int \<times> int"

record polygon_filler =
  pf_beats_per_bar :: int
  pf_beat_duration :: real
  pf_bar_duration :: real
  pf_accent_color :: color
  pf_last :: bool
  pf_fade_beats :: int

record bar_indicator =
  bi_dur :: real
  bi_beats_per_bar :: int
  bi_bpm :: real
  bi_accent_color :: color
  bi_scale :: int

record preview =
  pv_vertices :: int
  pv_start :: real
  pv_end :: real
  pv_accent_color :: color

datatype content =
    PolygonFill polygon_filler
  | SigText "int \<times> int"
  | BpmText real
  | NextText "int \<times> int"
  | BarIndicator bar_indicator
  | PreviewAcos preview
  | PreviewPow preview
  | Blank

record clip =
  clip_start :: real
  clip_duration :: real
  clip_content :: content

definition clip_end :: "rounding \<Rightarrow> clip \<Rightarrow> real" where
  \<comment> \<open>the end that the media library gives a clip: start plus duration\<close>
  "clip_end rnd c = rnd (clip_start c + clip_duration c)"

definition make_polygon_filler ::
  "rounding \<Rightarrow> int \<Rightarrow> real \<Rightarrow> real \<Rightarrow> color \<Rightarrow> bool \<Rightarrow> int \<Rightarrow> py_error + clip" where
  "make_polygon_filler rnd beats_per_bar bpm bar_duration accent_color is_last fade_beats =
     (case fdiv rnd 60 bpm of
        Inl e \<Rightarrow> Inl e
      | Inr beat_duration \<Rightarrow>
          Inr \<lparr>clip_start = 0, clip_duration = bar_duration,
               clip_content = PolygonFill
                 \<lparr>pf_beats_per_bar = beats_per_bar, pf_beat_duration = beat_duration,
                  pf_bar_duration = bar_duration, pf_accent_color = accent_color,
                  pf_last = is_last, pf_fade_beats = fade_beats\<rparr>\<rparr>)"

definition sig_clip :: "'a segment_scheme \<Rightarrow> clip" where
  "sig_clip segment =
     \<lparr>clip_start = seg_start segment, clip_duration = seg_dur segment,
      clip_content = SigText (seg_sig segment)\<rparr>"

definition bpm_clip :: "'a segment_scheme \<Rightarrow> clip" where
  "bpm_clip segment =
     \<lparr>clip_start = seg_start segment, clip_duration = seg_dur segment,
      clip_content = BpmText (seg_bpm segment)\<rparr>"

subsection \<open>polygonal_metre.py\<close>

definition pm_no_next :: "segment list \<Rightarrow> segment \<Rightarrow> bool" where
  \<comment> \<open>\<open>(segment.get('next') == None) or (segment.get('next').get('next') == None)\<close>\<close>
  "pm_no_next segs segment =
     (case seg_next segment of
        NoNext \<Rightarrow> True
      | NextInfo s b \<Rightarrow> True
      | NextSeg j \<Rightarrow> seg_next (segs ! j) = NoNext)"

definition pm_next_sig :: "segment list \<Rightarrow> segment \<Rightarrow> int \<times> int" where
  \<comment> \<open>\<open>segment['next']['sig']\<close>, read only where \<open>pm_no_next\<close> is false\<close>
  "pm_next_sig segs segment =
     (case seg_next segment of
        NextSeg j \<Rightarrow> seg_sig (segs ! j)
      | NextInfo s b \<Rightarrow> s
      | NoNext \<Rightarrow> (0, 0))"

definition pm_next_clip :: "segment list \<Rightarrow> segment \<Rightarrow> clip option" where
  "pm_next_clip segs segment =
     (if pm_no_next segs segment then None
      else Some \<lparr>clip_start = seg_start segment, clip_duration = seg_dur segment,
                 clip_content = NextText (pm_next_sig segs segment)\<rparr>)"

definition pm_bar_clip :: "segment list \<Rightarrow> segment \<Rightarrow> int \<Rightarrow> color \<Rightarrow> clip option" where
  "pm_bar_clip segs segment scale accent_color =
     (if pm_no_next segs segment then None
      else Some \<lparr>clip_start = seg_start segment, clip_duration = seg_dur segment,
                 clip_content = BarIndicator
                   \<lparr>bi_dur = seg_dur segment, bi_beats_per_bar = fst (seg_sig segment),
                    bi_bpm = seg_bpm segment, bi_accent_color = accent_color,
                    bi_scale = scale\<rparr>\<rparr>)"

definition pm_polygon_clip :: "rounding \<Rightarrow> segment \<Rightarrow> color \<Rightarrow> py_error + clip" where
  "pm_polygon_clip rnd segment accent_color =
     (let n_beats = fst (seg_sig segment); bpm = seg_bpm segment; dur = seg_dur segment
      in case make_polygon_filler rnd n_beats bpm dur accent_color
                (seg_next segment = NoNext) 3 of
           Inl e \<Rightarrow> Inl e
         | Inr c \<Rightarrow> Inr (c\<lparr>clip_start := seg_start segment\<rparr>))"

definition pm_preview_clip ::
  "rounding \<Rightarrow> segment list \<Rightarrow> segment \<Rightarrow> color \<Rightarrow> py_error + clip option" where
  "pm_preview_clip rnd segs segment accent_color =
     (if pm_no_next segs segment then Inr None
      else (let beats_per_bar = fst (seg_sig segment);
                preview_end = seg_end segment
            in case fdiv rnd (of_int (beats_per_bar * 60)) (seg_bpm segment) of
                 Inl e \<Rightarrow> Inl e
               | Inr bar \<Rightarrow>
                   (let preview_start = rnd (preview_end - bar)
                    in Inr (Some
                         \<lparr>clip_start = preview_start,
                          clip_duration = rnd (preview_end - preview_start),
                          clip_content = PreviewAcos
                            \<lparr>pv_vertices = fst (pm_next_sig segs segment),
                             pv_start = preview_start, pv_end = preview_end,
                             pv_accent_color = accent_color\<rparr>\<rparr>))))"

subsection \<open>signature_visualizer.py\<close>

definition ACCENT_COLOR :: color where
  "ACCENT_COLOR = (0, 100, 255)"

definition sv_blank :: clip where
  \<comment> \<open>\<open>VideoClip(lambda t: np.zeros(...), duration=0)\<close>\<close>
  "sv_blank = \<lparr>clip_start = 0, clip_duration = 0, clip_content = Blank\<rparr>"

definition sv_no_next :: "sv_segment list \<Rightarrow> sv_segment \<Rightarrow> bool" where
  \<comment> \<open>\<open>(segment.get('next') == None) or (segment['next'].get('last') == True)\<close>\<close>
  "sv_no_next segs segment =
     (case seg_next segment of
        NoNext \<Rightarrow> True
      | NextInfo s b \<Rightarrow> False
      | NextSeg j \<Rightarrow> seg_last (segs ! j))"

definition sv_next_sig :: "sv_segment list \<Rightarrow> sv_segment \<Rightarrow> int \<times> int" where
  "sv_next_sig segs segment =
     (case seg_next segment of
        NextSeg j \<Rightarrow> seg_sig (segs ! j)
      | NextInfo s b \<Rightarrow> s
      | NoNext \<Rightarrow> (0, 0))"

definition sv_next_start :: "sv_segment list \<Rightarrow> sv_segment \<Rightarrow> real" where
  \<comment> \<open>\<open>segment['next']['start']\<close>; the driver only ever stores segment references\<close>
  "sv_next_start segs segment =
     (case seg_next segment of
        NextSeg j \<Rightarrow> seg_start (segs ! j)
      | NextInfo s b \<Rightarrow> 0
      | NoNext \<Rightarrow> 0)"

definition sv_next_clip :: "sv_segment list \<Rightarrow> sv_segment \<Rightarrow> clip" where
  "sv_next_clip segs segment =
     (if sv_no_next segs segment then sv_blank
      else \<lparr>clip_start = seg_start segment, clip_duration = seg_dur segment,
            clip_content = NextText (sv_next_sig segs segment)\<rparr>)"

definition sv_polygon_clip :: "rounding \<Rightarrow> sv_segment \<Rightarrow> py_error + clip" where
  "sv_polygon_clip rnd segment =
     (let n_beats = fst (seg_sig segment); bpm = seg_bpm segment; dur = seg_dur segment
      in case make_polygon_filler rnd n_beats bpm dur ACCENT_COLOR (seg_last segment) 3 of
           Inl e \<Rightarrow> Inl e
         | Inr c \<Rightarrow> Inr (c\<lparr>clip_start := seg_start segment\<rparr>))"

definition sv_preview_clip :: "rounding \<Rightarrow> sv_segment list \<Rightarrow> sv_segment \<Rightarrow> py_error + clip" where
  "sv_preview_clip rnd segs segment =
     (if sv_no_next segs segment then Inr sv_blank
      else (let beats_per_bar = fst (seg_sig segment)
            in case fdiv rnd (of_int (beats_per_bar * 60)) (seg_bpm segment) of
                 Inl e \<Rightarrow> Inl e
               | Inr bar \<Rightarrow>
                   (let preview_start = rnd (sv_next_start segs segment - bar);
                        preview_end = sv_next_start segs segment
                    in Inr \<lparr>clip_start = preview_start,
                            clip_duration = rnd (preview_end - preview_start),
                            clip_content = PreviewPow
                              \<lparr>pv_vertices = fst (sv_next_sig segs segment),
                               pv_start = preview_start, pv_end = preview_end,
                               pv_accent_color = ACCENT_COLOR\<rparr>\<rparr>)))"

section \<open>Composition drivers\<close>

definition set_next :: "'a segment_scheme list \<Rightarrow> nat \<Rightarrow> 'a segment_scheme list" where
  \<comment> \<open>\<open>segment['next'] = time_segments[i + 1] if i + 1 < len(time_segments) else None\<close>\<close>
  "set_next segs i =
     segs[i := (segs ! i)\<lparr>seg_next := (if i + 1 < length segs then NextSeg (i + 1) else NoNext)\<rparr>]"

record pm_layers =
  ly_polygon :: clip
  ly_sig :: clip
  ly_bpm :: clip
  ly_next :: "clip option"
  ly_bar :: "clip option"
  ly_preview :: "clip option"

definition pm_layers_at ::
  "rounding \<Rightarrow> int \<Rightarrow> color \<Rightarrow> segment list \<Rightarrow> nat \<Rightarrow> py_error + pm_layers" where
  "pm_layers_at rnd scale accent_color segs i =
     (let segment = segs ! i
      in case pm_polygon_clip rnd segment accent_color of
           Inl e \<Rightarrow> Inl e
         | Inr p \<Rightarrow>
             (case pm_preview_clip rnd segs segment accent_color of
                Inl e \<Rightarrow> Inl e
              | Inr v \<Rightarrow>
                  Inr \<lparr>ly_polygon = p, ly_sig = sig_clip segment, ly_bpm = bpm_clip segment,
                       ly_next = pm_next_clip segs segment,
                       ly_bar = pm_bar_clip segs segment scale accent_color,
                       ly_preview = v\<rparr>))"

text \<open>
  The loop \<open>for i, segment in enumerate(time_segments)\<close>: \<open>k\<close> iterations are left, the
  next one has index \<open>i\<close>. Each iteration first stores the successor reference in the
  segment and then builds its layers from the segment list as it is at that moment.
\<close>

fun pm_clip_loop ::
  "rounding \<Rightarrow> int \<Rightarrow> color \<Rightarrow> nat \<Rightarrow> nat \<Rightarrow> segment list \<Rightarrow> py_error + pm_layers list" where
  "pm_clip_loop rnd scale accent_color 0 i segs = Inr []"
| "pm_clip_loop rnd scale accent_color (Suc k) i segs =
     (let segs' = set_next segs i
      in case pm_layers_at rnd scale accent_color segs' i of
           Inl e \<Rightarrow> Inl e
         | Inr l \<Rightarrow>
             (case pm_clip_loop rnd scale accent_color k (Suc i) segs' of
                Inl e \<Rightarrow> Inl e
              | Inr ls \<Rightarrow> Inr (l # ls)))"

definition pm_layer_clips :: "pm_layers \<Rightarrow> clip option list" where
  "pm_layer_clips l =
     [Some (ly_polygon l), Some (ly_sig l), Some (ly_bpm l), ly_next l, ly_bar l, ly_preview l]"

record video =
  v_clips :: "clip list"
  v_duration :: real

definition pm_timeline_layers ::
  "rounding \<Rightarrow> int \<Rightarrow> color \<Rightarrow> descriptor list \<Rightarrow> py_error + pm_layers list" where
  "pm_timeline_layers rnd scale accent_color ds =
     (case pm_get_segments rnd ds of
        Inl e \<Rightarrow> Inl e
      | Inr (time_segments, final_time) \<Rightarrow>
          pm_clip_loop rnd scale accent_color (length time_segments) 0 time_segments)"

definition pm_create_signature_video ::
  "rounding \<Rightarrow> int \<Rightarrow> color \<Rightarrow> descriptor list \<Rightarrow> real \<Rightarrow> py_error + video" where
  \<comment> \<open>\<open>total_duration\<close> is the duration of the audio file\<close>
  "pm_create_signature_video rnd scale accent_color ds total_duration =
     (case pm_get_segments rnd ds of
        Inl e \<Rightarrow> Inl e
      | Inr (time_segments, final_time) \<Rightarrow>
          (case pm_clip_loop rnd scale accent_color (length time_segments) 0 time_segments of
             Inl e \<Rightarrow> Inl e
           | Inr ls \<Rightarrow>
               Inr \<lparr>v_clips = map the (filter (\<lambda>c. c \<noteq> None) (concat (map pm_layer_clips ls))),
                    v_duration = min final_time total_duration\<rparr>))"

record sv_layers =
  vl_polygon :: clip
  vl_sig :: clip
  vl_bpm :: clip
  vl_next :: clip
  vl_preview :: clip

definition sv_layers_at :: "rounding \<Rightarrow> sv_segment list \<Rightarrow> nat \<Rightarrow> py_error + sv_layers" where
  "sv_layers_at rnd segs i =
     (let segment = segs ! i
      in case sv_polygon_clip rnd segment of
           Inl e \<Rightarrow> Inl e
         | Inr p \<Rightarrow>
             (case sv_preview_clip rnd segs segment of
                Inl e \<Rightarrow> Inl e
              | Inr v \<Rightarrow>
                  Inr \<lparr>vl_polygon = p, vl_sig = sig_clip segment, vl_bpm = bpm_clip segment,
                       vl_next = sv_next_clip segs segment, vl_preview = v\<rparr>))"

fun sv_clip_loop :: "rounding \<Rightarrow> nat \<Rightarrow> nat \<Rightarrow> sv_segment list \<Rightarrow> py_error + sv_layers list" where
  "sv_clip_loop rnd 0 i segs = Inr []"
| "sv_clip_loop rnd (Suc k) i segs =
     (let segs' = set_next segs i
      in case sv_layers_at rnd segs' i of
           Inl e \<Rightarrow> Inl e
         | Inr l \<Rightarrow>
             (case sv_clip_loop rnd k (Suc i) segs' of
                Inl e \<Rightarrow> Inl e
              | Inr ls \<Rightarrow> Inr (l # ls)))"

definition sv_layer_clips :: "sv_layers \<Rightarrow> clip list" where
  "sv_layer_clips l = [vl_polygon l, vl_sig l, vl_bpm l, vl_next l, vl_preview l]"

definition sv_timeline_layers :: "rounding \<Rightarrow> descriptor list \<Rightarrow> py_error + sv_layers list" where
  "sv_timeline_layers rnd ds =
     (case sv_unpack (sv_get_segments rnd ds) of
        Inl e \<Rightarrow> Inl e
      | Inr (time_segments, current_time) \<Rightarrow>
          sv_clip_loop rnd (length time_segments) 0 time_segments)"

definition sv_create_signature_video ::
  "rounding \<Rightarrow> descriptor list \<Rightarrow> real \<Rightarrow> py_error + video" where
  "sv_create_signature_video rnd ds total_duration =
     (case sv_unpack (sv_get_segments rnd ds) of
        Inl e \<Rightarrow> Inl e
      | Inr (time_segments, current_time) \<Rightarrow>
          (case sv_clip_loop rnd (length time_segments) 0 time_segments of
             Inl e \<Rightarrow> Inl e
           | Inr ls \<Rightarrow>
               Inr \<lparr>v_clips = concat (map sv_layer_clips ls),
                    v_duration = min current_time total_duration\<rparr>))"

section \<open>Frame functions\<close>

subsection \<open>Polygon fill (\<open>make_frame\<close> of \<open>make_polygon_filler\<close>, the same in both files)\<close>

definition beats_ago_of :: "rounding \<Rightarrow> polygon_filler \<Rightarrow> real \<Rightarrow> int \<Rightarrow> real" where
  \<comment> \<open>\<open>beats_ago = beat_phase - i\<close>, then \<open>if beats_ago < 0: beats_ago += beats_per_bar\<close>\<close>
  "beats_ago_of rnd pf beat_phase i =
     (let beats_ago = rnd (beat_phase - of_int i)
      in if beats_ago < 0 then rnd (beats_ago + of_int (pf_beats_per_bar pf)) else beats_ago)"

definition brightness_of :: "rounding \<Rightarrow> real \<Rightarrow> int" where
  \<comment> \<open>\<open>brightness = int(255 * fade)\<close>\<close>
  "brightness_of rnd fade = py_int (rnd (255 * fade))"

definition slice_rgb :: "rounding \<Rightarrow> polygon_filler \<Rightarrow> int \<Rightarrow> real \<Rightarrow> color" where
  "slice_rgb rnd pf i fade =
     (let brightness = brightness_of rnd fade;
          color = (brightness, brightness, brightness);
          color = (if i = 0
                   then (case pf_accent_color pf of
                           (r, g, b) \<Rightarrow>
                             (py_int (rnd (of_int r * fade)), py_int (rnd (of_int g * fade)),
                              py_int (rnd (of_int b * fade))))
                   else color)
      in if pf_last pf then (0, 0, 0) else color)"

definition slice_color ::
  "rounding \<Rightarrow> polygon_filler \<Rightarrow> real \<Rightarrow> real \<Rightarrow> int \<Rightarrow> py_error + color option" where
  \<comment> \<open>the body of \<open>for i in range(beats_per_bar)\<close>: the colour slice \<open>i\<close> is filled with, if any\<close>
  "slice_color rnd pf beat_pos beat_phase i =
     (if rnd (beat_pos - of_int i) < 0 \<and> \<not> pf_last pf then Inr None
      else (let beats_ago = beats_ago_of rnd pf beat_phase i
            in if beats_ago < of_int (pf_fade_beats pf) \<or> pf_last pf
               then (case fdiv rnd beats_ago (of_int (pf_fade_beats pf)) of
                       Inl e \<Rightarrow> Inl e
                     | Inr q \<Rightarrow> (let x = rnd (1 - q); fade = x
                                 in Inr (Some (slice_rgb rnd pf i fade))))
               else Inr None))"

fun fading_slices ::
  "rounding \<Rightarrow> polygon_filler \<Rightarrow> real \<Rightarrow> real \<Rightarrow> int list \<Rightarrow> py_error + (int \<times> color) list" where
  "fading_slices rnd pf beat_pos beat_phase [] = Inr []"
| "fading_slices rnd pf beat_pos beat_phase (i # is) =
     (case slice_color rnd pf beat_pos beat_phase i of
        Inl e \<Rightarrow> Inl e
      | Inr c \<Rightarrow>
          (case fading_slices rnd pf beat_pos beat_phase is of
             Inl e \<Rightarrow> Inl e
           | Inr rest \<Rightarrow> Inr ((case c of None \<Rightarrow> [] | Some col \<Rightarrow> [(i, col)]) @ rest)))"

definition polygon_make_frame ::
  "rounding \<Rightarrow> polygon_filler \<Rightarrow> real \<Rightarrow> py_error + (int \<times> color) list" where
  \<comment> \<open>the slices filled at local time \<open>t\<close>, in drawing order, each with its colour\<close>
  "polygon_make_frame rnd pf t =
     (case fmod rnd t (pf_bar_duration pf) of
        Inl e \<Rightarrow> Inl e
      | Inr m \<Rightarrow>
          (case fdiv rnd m (pf_beat_duration pf) of
             Inl e \<Rightarrow> Inl e
           | Inr beat_pos \<Rightarrow>
               (case fmod rnd beat_pos (of_int (pf_beats_per_bar pf)) of
                  Inl e \<Rightarrow> Inl e
                | Inr beat_phase \<Rightarrow>
                    if pf_beats_per_bar pf < 0 then Inl ValueError
                    else fading_slices rnd pf beat_pos beat_phase
                           [0..pf_beats_per_bar pf - 1])))"

subsection \<open>Progress indicator (\<open>make_frame\<close> of \<open>_bar_clip\<close>, polygonal_metre.py)\<close>

record bar_frame =
  bf_corners :: "(real \<times> int) \<times> (int \<times> int)"
  bf_color :: color

definition bar_make_frame :: "rounding \<Rightarrow> bar_indicator \<Rightarrow> real \<Rightarrow> py_error + bar_frame" where
  "bar_make_frame rnd bi t =
     (case fdiv rnd t (bi_dur bi) of
        Inl e \<Rightarrow> Inl e
      | Inr fraction \<Rightarrow>
          (case fdiv rnd (of_int (bi_beats_per_bar bi * 60)) (bi_bpm bi) of
             Inl e \<Rightarrow> Inl e
           | Inr bar \<Rightarrow>
               Inr \<lparr>bf_corners =
                      ((rnd (rnd (150 + rnd (fraction * 47)) * of_int (bi_scale bi)),
                        14 * bi_scale bi),
                       (197 * bi_scale bi, 17 * bi_scale bi)),
                    bf_color = (if rnd (bi_dur bi - bar) < t then bi_accent_color bi
                                else (255, 255, 255))\<rparr>))"

subsection \<open>Transition preview (\<open>make_frame\<close> of \<open>_preview_clip\<close>)\<close>

record preview_frame =
  vf_vertices :: int
  vf_opacity :: real
  vf_outline :: "color \<times> int"

definition acos_py :: "rounding \<Rightarrow> real \<Rightarrow> py_error + real" where
  \<comment> \<open>\<open>math.acos\<close>: a math domain error outside \<open>[-1, 1]\<close>\<close>
  "acos_py rnd x = (if x < - 1 \<or> 1 < x then Inl ValueError else Inr (rnd (arccos x)))"

definition preview_make_frame :: "rounding \<Rightarrow> preview \<Rightarrow> real \<Rightarrow> py_error + preview_frame" where
  \<comment> \<open>polygonal_metre.py: \<open>opacity = (math.pi**-1)*math.acos(1-2*(t/(preview_end-preview_start)))\<close>\<close>
  "preview_make_frame rnd pv t =
     (if pv_vertices pv < 0 then Inl ValueError
      else (case fdiv rnd t (rnd (pv_end pv - pv_start pv)) of
              Inl e \<Rightarrow> Inl e
            | Inr q \<Rightarrow>
                (case acos_py rnd (rnd (1 - rnd (2 * q))) of
                   Inl e \<Rightarrow> Inl e
                 | Inr a \<Rightarrow>
                     (let opacity = rnd (rnd (1 / rnd pi) * a)
                      in Inr \<lparr>vf_vertices = pv_vertices pv, vf_opacity = opacity,
                              vf_outline = (pv_accent_color pv,
                                            py_int (rnd (255 * opacity)))\<rparr>))))"

definition sv_preview_make_frame :: "rounding \<Rightarrow> preview \<Rightarrow> real \<Rightarrow> py_error + preview_frame" where
  \<comment> \<open>signature_visualizer.py: \<open>opacity = (t/(preview_end-preview_start))**1.5\<close>; the power of
      a negative float is a complex number, which \<open>int\<close> rejects\<close>
  "sv_preview_make_frame rnd pv t =
     (if pv_vertices pv < 0 then Inl ValueError
      else (case fdiv rnd t (rnd (pv_end pv - pv_start pv)) of
              Inl e \<Rightarrow> Inl e
            | Inr q \<Rightarrow>
                if q < 0 then Inl TypeError
                else (let opacity = rnd (q powr (3 / 2))
                      in Inr \<lparr>vf_vertices = pv_vertices pv, vf_opacity = opacity,
                              vf_outline = (pv_accent_color pv,
                                            py_int (rnd (255 * opacity)))\<rparr>)))"

section \<open>Closed forms of the timeline builders\<close>

text \<open>
  The definitions of this section are not taken from the source. They describe the
  result of the two builders without the loop state, and the lemmas below prove that the
  builders compute them. \<open>running\<close> is the running total: the value of \<open>current_time\<close>
  after the given descriptors, each \<open>current_time += segment_duration\<close> rounded.
\<close>

definition pm_bar :: "rounding \<Rightarrow> descriptor \<Rightarrow> real" where
  "pm_bar rnd d = rnd (of_int (fst (d_sig d) * 60) / d_bpm d)"

definition pm_dur :: "rounding \<Rightarrow> descriptor \<Rightarrow> real" where
  "pm_dur rnd d = rnd (d_bars d * pm_bar rnd d)"

definition sv_dur :: "rounding \<Rightarrow> descriptor \<Rightarrow> real" where
  "sv_dur rnd d = rnd (rnd (d_bars d * of_int (fst (d_sig d))) * rnd (60 / d_bpm d))"

fun running :: "rounding \<Rightarrow> (descriptor \<Rightarrow> real) \<Rightarrow> real \<Rightarrow> descriptor list \<Rightarrow> real" where
  "running rnd dur t [] = t"
| "running rnd dur t (d # ds) = running rnd dur (rnd (t + dur d)) ds"

fun pm_built :: "rounding \<Rightarrow> real \<Rightarrow> descriptor list \<Rightarrow> segment list" where
  "pm_built rnd t [] = []"
| "pm_built rnd t (d # ds) =
     \<lparr>seg_start = t, seg_end = rnd (t + pm_dur rnd d), seg_dur = pm_dur rnd d,
      seg_sig = d_sig d, seg_bpm = d_bpm d,
      seg_next = (case ds of [] \<Rightarrow> NoNext | d' # _ \<Rightarrow> NextInfo (d_sig d') (d_bpm d'))\<rparr>
     # pm_built rnd (rnd (t + pm_dur rnd d)) ds"

definition pm_link :: "segment list \<Rightarrow> descriptor list \<Rightarrow> segment list" where
  "pm_link segs ds =
     (case ds of [] \<Rightarrow> segs
      | d # _ \<Rightarrow> (if segs = [] then segs
                  else segs[length segs - 1 := (segs ! (length segs - 1))\<lparr>seg_next := NextInfo (d_sig d) (d_bpm d)\<rparr>]))"

definition pm_dummy :: "rounding \<Rightarrow> descriptor list \<Rightarrow> segment" where
  "pm_dummy rnd ds =
     \<lparr>seg_start = running rnd (pm_dur rnd) 0 ds,
      seg_end = rnd (running rnd (pm_dur rnd) 0 ds + pm_bar rnd (last ds)),
      seg_dur = pm_bar rnd (last ds), seg_sig = d_sig (last ds), seg_bpm = d_bpm (last ds),
      seg_next = NoNext\<rparr>"

definition pm_segs :: "rounding \<Rightarrow> descriptor list \<Rightarrow> segment list" where
  "pm_segs rnd ds =
     (pm_built rnd 0 ds)
       [length ds - 1 := (pm_built rnd 0 ds ! (length ds - 1))\<lparr>seg_next := NextSeg (length ds)\<rparr>]
     @ [pm_dummy rnd ds]"

fun sv_built :: "rounding \<Rightarrow> real \<Rightarrow> descriptor list \<Rightarrow> sv_segment list" where
  "sv_built rnd t [] = []"
| "sv_built rnd t (d # ds) =
     \<lparr>seg_start = t, seg_end = rnd (t + sv_dur rnd d), seg_dur = sv_dur rnd d,
      seg_sig = d_sig d, seg_bpm = d_bpm d, seg_next = NoNext, seg_last = False\<rparr>
     # sv_built rnd (rnd (t + sv_dur rnd d)) ds"

definition sv_dummy :: "rounding \<Rightarrow> descriptor list \<Rightarrow> sv_segment" where
  "sv_dummy rnd ds =
     \<lparr>seg_start = running rnd (sv_dur rnd) 0 ds,
      seg_end = rnd (running rnd (sv_dur rnd) 0 ds + pm_bar rnd (last ds)),
      seg_dur = pm_bar rnd (last ds), seg_sig = d_sig (last ds), seg_bpm = d_bpm (last ds),
      seg_next = NoNext, seg_last = True\<rparr>"

definition sv_segs :: "rounding \<Rightarrow> descriptor list \<Rightarrow> sv_segment list" where
  "sv_segs rnd ds = sv_built rnd 0 ds @ [sv_dummy rnd ds]"

text \<open>What the two builders are compared on: the keys both of them set, and the final time.\<close>

definition timeline_core ::
  "'a segment_scheme list \<times> real \<Rightarrow> (real \<times> real \<times> real \<times> (int \<times> int) \<times> real) list \<times> real" where
  "timeline_core r = (map seg_core (fst r), snd r)"

definition sig_bpm :: "'a segment_scheme list \<times> real \<Rightarrow> ((int \<times> int) \<times> real) list" where
  "sig_bpm r = map (\<lambda>s. (seg_sig s, seg_bpm s)) (fst r)"

text \<open>The example of the specification: one bar of 4/4 and one bar of 3/4, both at 120 bpm.\<close>

definition example_map :: "descriptor list" where
  "example_map = [\<lparr>d_sig = (4, 4), d_bpm = 120, d_bars = 1\<rparr>,
                  \<lparr>d_sig = (3, 4), d_bpm = 120, d_bars = 1\<rparr>]"

text \<open>Two bars of 4/4 and one bar of 3/4, both at 120 bpm.\<close>

definition two_bar_map :: "descriptor list" where
  "two_bar_map = [\<lparr>d_sig = (4, 4), d_bpm = 120, d_bars = 2\<rparr>,
                  \<lparr>d_sig = (3, 4), d_bpm = 120, d_bars = 1\<rparr>]"

text \<open>
  The polygon fillers of the first segments of the two examples: four beats of half a
  second, in a segment of one bar and in a segment of two bars.
\<close>

definition one_bar_filler :: polygon_filler where
  "one_bar_filler = \<lparr>pf_beats_per_bar = 4, pf_beat_duration = 1 / 2, pf_bar_duration = 2,
     pf_accent_color = (0, 100, 255), pf_last = False, pf_fade_beats = 3\<rparr>"

definition two_bar_filler :: polygon_filler where
  "two_bar_filler = \<lparr>pf_beats_per_bar = 4, pf_beat_duration = 1 / 2, pf_bar_duration = 4,
     pf_accent_color = (0, 100, 255), pf_last = False, pf_fade_beats = 3\<rparr>"

section \<open>The rounding to double precision\<close>

text \<open>
  \<open>dexp\<close> is the binary exponent, and \<open>round_double\<close> is within half a unit in the last
  place of a 53-bit significand.
\<close>

lemma dexp_bounds:
  assumes "x \<noteq> 0"
  shows "2 powi dexp x \<le> \<bar>x\<bar> \<and> \<bar>x\<bar> < 2 powi (dexp x + 1)"
proof (cases "1 \<le> \<bar>x\<bar>")
  case True
  define m where "m = \<lfloor>\<bar>x\<bar>\<rfloor>"
  from True have m: "0 < m" by (simp add: m_def)
  then have b: "1 \<le> bitlen m" by (simp add: bitlen_alt_def)
  from bitlen_bounds [OF m] have lo: "2 ^ nat (bitlen m - 1) \<le> m" and hi: "m < 2 ^ nat (bitlen m)"
    by simp_all
  have "(2 :: real) ^ nat (bitlen m - 1) \<le> of_int m"
    using lo by (metis of_int_le_iff of_int_numeral of_int_power)
  also have "\<dots> \<le> \<bar>x\<bar>" by (simp add: m_def)
  finally have 1: "2 powi (bitlen m - 1) \<le> \<bar>x\<bar>"
    using b by (simp add: power_int_def)
  from hi have "m + 1 \<le> 2 ^ nat (bitlen m)" by simp
  then have "(of_int (m + 1) :: real) \<le> 2 ^ nat (bitlen m)"
    by (metis of_int_le_iff of_int_numeral of_int_power)
  moreover have "\<bar>x\<bar> < of_int (m + 1)" by (simp add: m_def)
  ultimately have "\<bar>x\<bar> < 2 ^ nat (bitlen m)" by simp
  then have 2: "\<bar>x\<bar> < 2 powi (bitlen m - 1 + 1)"
    using b by (simp add: power_int_def)
  from True 1 2 show ?thesis by (simp add: dexp_def Let_def m_def)
next
  case False
  define a where "a = \<bar>x\<bar>"
  from assms False have a: "0 < a" "a < 1" by (simp_all add: a_def)
  define k where "k = \<lfloor>1 / a\<rfloor>"
  from a have "1 \<le> 1 / a" by simp
  then have k: "0 < k" by (simp add: k_def)
  define b where "b = bitlen k"
  from k have b: "1 \<le> b" by (simp add: bitlen_alt_def b_def)
  from bitlen_bounds [OF k] have lo: "2 ^ nat (b - 1) \<le> k" and hi: "k < 2 ^ nat b"
    by (simp_all add: b_def)
  have "(2 :: real) ^ nat (b - 1) \<le> of_int k"
    using lo by (metis of_int_le_iff of_int_numeral of_int_power)
  also have "\<dots> \<le> 1 / a" by (simp add: k_def)
  finally have "a \<le> inverse (2 ^ nat (b - 1))" using a by (simp add: field_simps)
  moreover have "(2 :: real) powi (1 - b) = inverse (2 ^ nat (b - 1))"
  proof -
    have "(2 :: real) powi (1 - b) = inverse (2 powi (b - 1))"
      by (simp flip: power_int_minus)
    also have "(2 :: real) powi (b - 1) = 2 ^ nat (b - 1)"
      using b by (simp add: power_int_nonneg_exp)
    finally show ?thesis .
  qed
  ultimately have up: "a \<le> 2 powi (1 - b)"
    by simp
  from hi have "k + 1 \<le> 2 ^ nat b" by simp
  then have "(of_int (k + 1) :: real) \<le> 2 ^ nat b"
    by (metis of_int_le_iff of_int_numeral of_int_power)
  moreover have "1 / a < of_int (k + 1)" by (simp add: k_def)
  ultimately have "1 / a < 2 ^ nat b" by simp
  then have "inverse (2 ^ nat b) < a" using a by (simp add: field_simps)
  moreover have "(2 :: real) powi (- b) = inverse (2 ^ nat b)"
    using b by (simp add: power_int_minus power_int_nonneg_exp)
  ultimately have dn: "2 powi (- b) < a"
    by simp
  have dx: "dexp x = (if 2 powi (1 - b) \<le> a then 1 - b else - b)"
    using False by (simp add: dexp_def Let_def a_def k_def b_def)
  show ?thesis
  proof (cases "2 powi (1 - b) \<le> a")
    case True
    with up have eq: "a = 2 powi (1 - b)" by simp
    have "(2 :: real) powi (1 - b) < 2 powi (1 - b + 1)"
      by (intro power_int_strict_increasing) simp_all
    with eq have "2 powi (1 - b) \<le> a \<and> a < 2 powi (1 - b + 1)" by simp
    with True show ?thesis unfolding dx a_def [symmetric] by simp
  next
    case F: False
    then have "a < 2 powi (- b + 1)" by (simp add: algebra_simps)
    with dn have "2 powi (- b) \<le> a \<and> a < 2 powi (- b + 1)" by simp
    with F show ?thesis unfolding dx a_def [symmetric] by simp
  qed
qed

lemma round_half_even_error: "\<bar>of_int (round_half_even y) - y\<bar> \<le> 1 / 2"
  unfolding round_half_even_def Let_def by (auto simp add: abs_le_iff)

lemma round_double_error:
  assumes "x \<noteq> 0"
  shows "\<bar>round_double x - x\<bar> \<le> 2 powi (dexp x - 53)"
proof -
  define e where "e = dexp x - 52"
  define p :: real where "p = 2 powi e"
  have p: "0 < p" by (simp add: p_def)
  have "round_double x - x = (of_int (round_half_even (x / p)) - x / p) * p"
    using assms p by (simp add: round_double_def Let_def e_def p_def field_simps)
  then have "\<bar>round_double x - x\<bar> = \<bar>of_int (round_half_even (x / p)) - x / p\<bar> * p"
    using p by (simp add: abs_mult)
  also have "\<dots> \<le> (1 / 2) * p"
    using p round_half_even_error [of "x / p"] by (intro mult_right_mono) simp_all
  also have "\<dots> = 2 powi (dexp x - 53)"
    by (simp add: p_def e_def power_int_diff)
  finally show ?thesis .
qed

section \<open>The builders compute their closed forms\<close>

lemma pm_link_snoc:
  "pm_link (xs @ [x]) ds =
     xs @ [x\<lparr>seg_next := (case ds of [] \<Rightarrow> seg_next x | d' # _ \<Rightarrow> NextInfo (d_sig d') (d_bpm d'))\<rparr>]"
  by (cases ds) (simp_all add: pm_link_def)

lemma pm_loop_closed:
  "\<forall>d\<in>set ds. d_bpm d \<noteq> 0 \<Longrightarrow> length (pm_segments st) = i \<Longrightarrow>
   pm_loop rnd i ds st =
     Inr \<lparr>pm_current_time = running rnd (pm_dur rnd) (pm_current_time st) ds,
          pm_segments = pm_link (pm_segments st) ds @ pm_built rnd (pm_current_time st) ds,
          pm_bound = (if ds = [] then pm_bound st
                      else Some \<lparr>pl_sig = d_sig (last ds), pl_bpm = d_bpm (last ds),
                                 pl_bar_duration = pm_bar rnd (last ds),
                                 pl_segment_duration = pm_dur rnd (last ds)\<rparr>)\<rparr>"
proof (induction ds arbitrary: i st)
  case Nil
  then show ?case by (simp add: pm_link_def)
next
  case (Cons d ds)
  from Cons.prems have nz: "d_bpm d \<noteq> 0" and rest: "\<forall>d\<in>set ds. d_bpm d \<noteq> 0"
    by simp_all
  define new where "new = \<lparr>seg_start = pm_current_time st,
     seg_end = rnd (pm_current_time st + pm_dur rnd d), seg_dur = pm_dur rnd d,
     seg_sig = d_sig d, seg_bpm = d_bpm d, seg_next = NoNext\<rparr>"
  define st1 where "st1 = \<lparr>pm_current_time = rnd (pm_current_time st + pm_dur rnd d),
     pm_segments = pm_link (pm_segments st) (d # ds) @ [new],
     pm_bound = Some \<lparr>pl_sig = d_sig d, pl_bpm = d_bpm d, pl_bar_duration = pm_bar rnd d,
                        pl_segment_duration = pm_dur rnd d\<rparr>\<rparr>"
  have step: "pm_loop rnd i (d # ds) st = pm_loop rnd (Suc i) ds st1"
    using nz Cons.prems(2)
    by (auto simp add: fdiv_def pm_link_def pm_dur_def pm_bar_def Let_def st1_def new_def)
  have len: "length (pm_segments st1) = Suc i"
    using Cons.prems(2) by (auto simp add: st1_def pm_link_def)
  have "pm_link (pm_segments st1) ds @ pm_built rnd (pm_current_time st1) ds
        = pm_link (pm_segments st) (d # ds) @ pm_built rnd (pm_current_time st) (d # ds)"
    by (cases ds) (simp_all add: st1_def pm_link_snoc new_def)
  moreover have "running rnd (pm_dur rnd) (pm_current_time st1) ds
        = running rnd (pm_dur rnd) (pm_current_time st) (d # ds)"
    by (simp add: st1_def)
  ultimately show ?case
    using Cons.IH [OF rest len] step by (simp add: st1_def)
qed

lemma running_snoc:
  "running rnd dur t (xs @ [x]) = rnd (running rnd dur t xs + dur x)"
  by (induction xs arbitrary: t) simp_all

lemma running_take_Suc:
  "i < length ds \<Longrightarrow>
   running rnd dur t (take (Suc i) ds) = rnd (running rnd dur t (take i ds) + dur (ds ! i))"
  by (simp add: take_Suc_conv_app_nth running_snoc)

lemma length_pm_built [simp]: "length (pm_built rnd t ds) = length ds"
  by (induction ds arbitrary: t) simp_all

lemma pm_built_nth:
  "i < length ds \<Longrightarrow>
   pm_built rnd t ds ! i =
     \<lparr>seg_start = running rnd (pm_dur rnd) t (take i ds),
      seg_end = running rnd (pm_dur rnd) t (take (Suc i) ds),
      seg_dur = pm_dur rnd (ds ! i), seg_sig = d_sig (ds ! i), seg_bpm = d_bpm (ds ! i),
      seg_next = (if Suc i < length ds
                  then NextInfo (d_sig (ds ! Suc i)) (d_bpm (ds ! Suc i)) else NoNext)\<rparr>"
proof (induction ds arbitrary: t i)
  case Nil
  then show ?case by simp
next
  case (Cons d ds)
  show ?case
  proof (cases i)
    case 0
    then show ?thesis by (cases ds) simp_all
  next
    case (Suc j)
    with Cons.prems have "j < length ds" by simp
    from Cons.IH [OF this] Suc show ?thesis by simp
  qed
qed

lemma pm_get_segments_closed:
  assumes "ds \<noteq> []" and "\<forall>d\<in>set ds. d_bpm d \<noteq> 0"
  shows "pm_get_segments rnd ds =
           Inr (pm_segs rnd ds,
                rnd (running rnd (pm_dur rnd) 0 ds + pm_dur rnd (last ds)))"
proof -
  have "length (pm_segments pm_init) = 0" by (simp add: pm_init_def)
  from pm_loop_closed [OF assms(2) this, of rnd] assms(1) show ?thesis
    by (simp add: pm_get_segments_def pm_init_def pm_link_def pm_segs_def pm_dummy_def Let_def
        split: list.splits)
qed

lemma length_pm_segs [simp]: "length (pm_segs rnd ds) = Suc (length ds)"
  by (simp add: pm_segs_def)

lemma pm_segs_nth:
  "i < length ds \<Longrightarrow>
   pm_segs rnd ds ! i =
     \<lparr>seg_start = running rnd (pm_dur rnd) 0 (take i ds),
      seg_end = running rnd (pm_dur rnd) 0 (take (Suc i) ds),
      seg_dur = pm_dur rnd (ds ! i), seg_sig = d_sig (ds ! i), seg_bpm = d_bpm (ds ! i),
      seg_next = (if Suc i < length ds
                  then NextInfo (d_sig (ds ! Suc i)) (d_bpm (ds ! Suc i))
                  else NextSeg (length ds))\<rparr>"
  by (auto simp add: pm_segs_def nth_append nth_list_update pm_built_nth)

lemma pm_segs_nth_dummy: "pm_segs rnd ds ! length ds = pm_dummy rnd ds"
  by (simp add: pm_segs_def nth_append)

lemma pm_segs_last: "last (pm_segs rnd ds) = pm_dummy rnd ds"
  by (simp add: pm_segs_def)

lemma pm_segs_prev:
  assumes "ds \<noteq> []"
  shows "pm_segs rnd ds ! (length ds - Suc 0) =
     \<lparr>seg_start = running rnd (pm_dur rnd) 0 (butlast ds),
      seg_end = running rnd (pm_dur rnd) 0 ds,
      seg_dur = pm_dur rnd (last ds), seg_sig = d_sig (last ds), seg_bpm = d_bpm (last ds),
      seg_next = NextSeg (length ds)\<rparr>"
proof -
  from assms have n: "length ds - Suc 0 < length ds" by simp
  from assms have "Suc (length ds - Suc 0) = length ds" by simp
  with pm_segs_nth [OF n, of rnd] assms show ?thesis
    by (simp add: last_conv_nth butlast_conv_take)
qed

lemma sv_loop_closed:
  "\<forall>d\<in>set ds. d_bpm d \<noteq> 0 \<Longrightarrow>
   sv_loop rnd ds st =
     (\<lparr>sv_current_time = running rnd (sv_dur rnd) (sv_current_time st) ds,
       sv_yielded = sv_yielded st @ sv_built rnd (sv_current_time st) ds,
       sv_bound = (if ds = [] then sv_bound st
                   else Some \<lparr>sl_sig = d_sig (last ds), sl_bpm = d_bpm (last ds),
                              sl_segment_duration = sv_dur rnd (last ds)\<rparr>)\<rparr>, None)"
proof (induction ds arbitrary: st)
  case Nil
  then show ?case by simp
next
  case (Cons d ds)
  from Cons.prems have nz: "d_bpm d \<noteq> 0" and rest: "\<forall>d\<in>set ds. d_bpm d \<noteq> 0"
    by simp_all
  show ?case
    using nz by (simp add: fdiv_def Let_def Cons.IH [OF rest] sv_dur_def)
qed

lemma sv_get_segments_closed:
  assumes "ds \<noteq> []" and "\<forall>d\<in>set ds. d_bpm d \<noteq> 0"
  shows "sv_get_segments rnd ds =
           (sv_segs rnd ds, Inr (rnd (running rnd (sv_dur rnd) 0 ds + sv_dur rnd (last ds))))"
  using assms
  by (simp add: sv_get_segments_def sv_loop_closed sv_init_def fdiv_def sv_segs_def
      sv_dummy_def pm_bar_def Let_def)

lemma length_sv_built [simp]: "length (sv_built rnd t ds) = length ds"
  by (induction ds arbitrary: t) simp_all

lemma sv_built_nth:
  "i < length ds \<Longrightarrow>
   sv_built rnd t ds ! i =
     \<lparr>seg_start = running rnd (sv_dur rnd) t (take i ds),
      seg_end = running rnd (sv_dur rnd) t (take (Suc i) ds),
      seg_dur = sv_dur rnd (ds ! i), seg_sig = d_sig (ds ! i), seg_bpm = d_bpm (ds ! i),
      seg_next = NoNext, seg_last = False\<rparr>"
proof (induction ds arbitrary: t i)
  case Nil
  then show ?case by simp
next
  case (Cons d ds)
  show ?case
  proof (cases i)
    case 0
    then show ?thesis by simp
  next
    case (Suc j)
    with Cons.prems have "j < length ds" by simp
    from Cons.IH [OF this] Suc show ?thesis by simp
  qed
qed

lemma length_sv_segs [simp]: "length (sv_segs rnd ds) = Suc (length ds)"
  by (simp add: sv_segs_def)

lemma sv_segs_nth:
  "i < length ds \<Longrightarrow>
   sv_segs rnd ds ! i =
     \<lparr>seg_start = running rnd (sv_dur rnd) 0 (take i ds),
      seg_end = running rnd (sv_dur rnd) 0 (take (Suc i) ds),
      seg_dur = sv_dur rnd (ds ! i), seg_sig = d_sig (ds ! i), seg_bpm = d_bpm (ds ! i),
      seg_next = NoNext, seg_last = False\<rparr>"
  by (simp add: sv_segs_def nth_append sv_built_nth)

lemma sv_segs_nth_dummy: "sv_segs rnd ds ! length ds = sv_dummy rnd ds"
  by (simp add: sv_segs_def nth_append)

lemma sv_segs_last: "last (sv_segs rnd ds) = sv_dummy rnd ds"
  by (simp add: sv_segs_def)

lemma sv_segs_prev:
  assumes "ds \<noteq> []"
  shows "sv_segs rnd ds ! (length ds - Suc 0) =
     \<lparr>seg_start = running rnd (sv_dur rnd) 0 (butlast ds),
      seg_end = running rnd (sv_dur rnd) 0 ds,
      seg_dur = sv_dur rnd (last ds), seg_sig = d_sig (last ds), seg_bpm = d_bpm (last ds),
      seg_next = NoNext, seg_last = False\<rparr>"
proof -
  from assms have n: "length ds - Suc 0 < length ds" by simp
  from assms have "Suc (length ds - Suc 0) = length ds" by simp
  with sv_segs_nth [OF n, of rnd] assms show ?thesis
    by (simp add: last_conv_nth butlast_conv_take)
qed

text \<open>A tempo of zero makes the division raise in both builders.\<close>

lemma pm_loop_zero_bpm:
  "\<exists>d\<in>set ds. d_bpm d = 0 \<Longrightarrow> pm_loop rnd i ds st = Inl ZeroDivisionError"
proof (induction ds arbitrary: i st)
  case Nil
  then show ?case by simp
next
  case (Cons d ds)
  show ?case
  proof (cases "d_bpm d = 0")
    case True
    then show ?thesis by (simp add: fdiv_def)
  next
    case False
    with Cons.prems have "\<exists>d\<in>set ds. d_bpm d = 0" by simp
    from Cons.IH [OF this] False show ?thesis by (simp add: fdiv_def Let_def)
  qed
qed

lemma sv_loop_zero_bpm:
  "\<exists>d\<in>set ds. d_bpm d = 0 \<Longrightarrow> snd (sv_loop rnd ds st) = Some ZeroDivisionError"
proof (induction ds arbitrary: st)
  case Nil
  then show ?case by simp
next
  case (Cons d ds)
  show ?case
  proof (cases "d_bpm d = 0")
    case True
    then show ?thesis by (simp add: fdiv_def)
  next
    case False
    with Cons.prems have "\<exists>d\<in>set ds. d_bpm d = 0" by simp
    from Cons.IH [OF this] False show ?thesis by (simp add: fdiv_def Let_def)
  qed
qed

lemma pm_get_segments_zero_bpm:
  "\<exists>d\<in>set ds. d_bpm d = 0 \<Longrightarrow> pm_get_segments rnd ds = Inl ZeroDivisionError"
  by (simp add: pm_get_segments_def pm_loop_zero_bpm)

lemma sv_get_segments_zero_bpm:
  assumes "\<exists>d\<in>set ds. d_bpm d = 0"
  shows "sv_unpack (sv_get_segments rnd ds) = Inl ZeroDivisionError"
proof -
  obtain st e where "sv_loop rnd ds sv_init = (st, e)" by (cases "sv_loop rnd ds sv_init")
  with sv_loop_zero_bpm [OF assms, of rnd sv_init] show ?thesis
    by (simp add: sv_get_segments_def sv_unpack_def)
qed

text \<open>The two builders on the example, and the evaluation of \<open>round_double\<close>.\<close>

lemma pm_example:
  "pm_get_segments exact example_map =
     Inr ([\<lparr>seg_start = 0, seg_end = 2, seg_dur = 2, seg_sig = (4, 4), seg_bpm = 120,
            seg_next = NextInfo (3, 4) 120\<rparr>,
           \<lparr>seg_start = 2, seg_end = 7 / 2, seg_dur = 3 / 2, seg_sig = (3, 4), seg_bpm = 120,
            seg_next = NextSeg 2\<rparr>,
           \<lparr>seg_start = 7 / 2, seg_end = 5, seg_dur = 3 / 2, seg_sig = (3, 4), seg_bpm = 120,
            seg_next = NoNext\<rparr>], 5)"
  by (simp add: pm_get_segments_def pm_init_def fdiv_def exact_def example_map_def Let_def)

lemma sv_example:
  "sv_unpack (sv_get_segments exact example_map) =
     Inr ([\<lparr>seg_start = 0, seg_end = 2, seg_dur = 2, seg_sig = (4, 4), seg_bpm = 120,
            seg_next = NoNext, seg_last = False\<rparr>,
           \<lparr>seg_start = 2, seg_end = 7 / 2, seg_dur = 3 / 2, seg_sig = (3, 4), seg_bpm = 120,
            seg_next = NoNext, seg_last = False\<rparr>,
           \<lparr>seg_start = 7 / 2, seg_end = 5, seg_dur = 3 / 2, seg_sig = (3, 4), seg_bpm = 120,
            seg_next = NoNext, seg_last = True\<rparr>], 5)"
  by (simp add: sv_get_segments_def sv_init_def sv_unpack_def fdiv_def exact_def example_map_def
      Let_def)

lemmas rd_eval = round_double_def dexp_def round_half_even_def Let_def compute_bitlen
  power_int_minus

section \<open>The drivers on a built timeline\<close>

text \<open>
  Iteration \<open>i\<close> of a driver reads the segment list only at the positions \<open>i\<close> and
  \<open>i + 1\<close>, and the earlier iterations have changed it only below \<open>i\<close>. So the layers
  of segment \<open>i\<close> are those computed from the builder's list with the successor
  reference of segment \<open>i\<close> set.
\<close>

lemma length_set_next [simp]: "length (set_next segs i) = length segs"
  by (simp add: set_next_def)

lemma set_next_nth_same:
  "i < length segs \<Longrightarrow>
   set_next segs i ! i =
     (segs ! i)\<lparr>seg_next := (if i + 1 < length segs then NextSeg (i + 1) else NoNext)\<rparr>"
  by (simp add: set_next_def)

lemma set_next_nth_other: "j \<noteq> i \<Longrightarrow> set_next segs i ! j = segs ! j"
  by (simp add: set_next_def)

lemma pm_layers_at_agree:
  assumes "length xs = length ys" and "i < length ys"
    and "\<forall>j. i \<le> j \<and> j < length ys \<longrightarrow> xs ! j = ys ! j"
  shows "pm_layers_at rnd scale acc (set_next xs i) i
           = pm_layers_at rnd scale acc (set_next ys i) i"
proof -
  have same: "set_next xs i ! i = set_next ys i ! i"
    using assms by (simp add: set_next_nth_same)
  have succ: "Suc i < length ys \<Longrightarrow> set_next xs i ! Suc i = set_next ys i ! Suc i"
    using assms by (simp add: set_next_nth_other)
  have nx: "seg_next (set_next ys i ! i) = (if Suc i < length ys then NextSeg (Suc i) else NoNext)"
    using assms by (simp add: set_next_nth_same)
  have no: "pm_no_next (set_next xs i) (set_next ys i ! i)
              = pm_no_next (set_next ys i) (set_next ys i ! i)"
    using succ by (simp add: pm_no_next_def nx)
  have sg: "pm_next_sig (set_next xs i) (set_next ys i ! i)
              = pm_next_sig (set_next ys i) (set_next ys i ! i)"
    using succ by (simp add: pm_next_sig_def nx)
  have a: "pm_preview_clip rnd (set_next xs i) (set_next ys i ! i) acc
          = pm_preview_clip rnd (set_next ys i) (set_next ys i ! i) acc"
    by (simp only: pm_preview_clip_def no sg)
  have b: "pm_next_clip (set_next xs i) (set_next ys i ! i)
          = pm_next_clip (set_next ys i) (set_next ys i ! i)"
    by (simp only: pm_next_clip_def no sg)
  have c: "pm_bar_clip (set_next xs i) (set_next ys i ! i) scale acc
          = pm_bar_clip (set_next ys i) (set_next ys i ! i) scale acc"
    by (simp only: pm_bar_clip_def no)
  show ?thesis
    by (simp only: pm_layers_at_def Let_def same a b c)
qed

lemma pm_clip_loop_closed:
  assumes "i + k = length ys" and "length xs = length ys"
    and "\<forall>j. i \<le> j \<and> j < length ys \<longrightarrow> xs ! j = ys ! j"
    and "\<forall>m. i \<le> m \<and> m < length ys \<longrightarrow> \<not> isl (pm_layers_at rnd scale acc (set_next ys m) m)"
  shows "pm_clip_loop rnd scale acc k i xs
           = Inr (map (\<lambda>m. projr (pm_layers_at rnd scale acc (set_next ys m) m)) [i..<i + k])"
  using assms
proof (induction k arbitrary: i xs)
  case 0
  then show ?case by simp
next
  case (Suc k)
  from Suc.prems have i: "i < length ys" by simp
  have here: "pm_layers_at rnd scale acc (set_next xs i) i
                = pm_layers_at rnd scale acc (set_next ys i) i"
    using Suc.prems(2) i Suc.prems(3) by (rule pm_layers_at_agree)
  from Suc.prems(4) i have ok: "\<not> isl (pm_layers_at rnd scale acc (set_next ys i) i)" by simp
  have rest: "pm_clip_loop rnd scale acc k (Suc i) (set_next xs i)
     = Inr (map (\<lambda>m. projr (pm_layers_at rnd scale acc (set_next ys m) m)) [Suc i..<Suc i + k])"
  proof (rule Suc.IH)
    show "Suc i + k = length ys" using Suc.prems(1) by simp
    show "length (set_next xs i) = length ys" using Suc.prems(2) by simp
    show "\<forall>j. Suc i \<le> j \<and> j < length ys \<longrightarrow> set_next xs i ! j = ys ! j"
      using Suc.prems(3) by (simp add: set_next_nth_other)
    show "\<forall>m. Suc i \<le> m \<and> m < length ys \<longrightarrow>
            \<not> isl (pm_layers_at rnd scale acc (set_next ys m) m)"
      using Suc.prems(4) by simp
  qed
  from ok obtain l where l: "pm_layers_at rnd scale acc (set_next ys i) i = Inr l"
    by (cases "pm_layers_at rnd scale acc (set_next ys i) i") simp_all
  have idx: "[i..<i + Suc k] = i # [Suc i..<Suc i + k]"
    by (simp add: upt_conv_Cons del: upt_Suc)
  show ?case
    unfolding idx by (simp add: here l rest Let_def)
qed

lemma pm_layers_at_fields:
  assumes "pm_layers_at rnd scale acc segs i = Inr l"
  shows "pm_polygon_clip rnd (segs ! i) acc = Inr (ly_polygon l)"
    and "pm_preview_clip rnd segs (segs ! i) acc = Inr (ly_preview l)"
    and "ly_next l = pm_next_clip segs (segs ! i)"
    and "ly_bar l = pm_bar_clip segs (segs ! i) scale acc"
    and "ly_sig l = sig_clip (segs ! i)" and "ly_bpm l = bpm_clip (segs ! i)"
  using assms by (auto simp add: pm_layers_at_def Let_def split: sum.splits)

lemma pm_layers_at_ok:
  assumes "seg_bpm (segs ! i) \<noteq> 0"
  shows "\<not> isl (pm_layers_at rnd scale acc segs i)"
  using assms
  by (simp add: pm_layers_at_def Let_def pm_polygon_clip_def make_polygon_filler_def
      pm_preview_clip_def fdiv_def)

lemma pm_segs_bpm:
  assumes "ds \<noteq> []" and "\<forall>d\<in>set ds. d_bpm d \<noteq> 0" and "m \<le> length ds"
  shows "seg_bpm (pm_segs rnd ds ! m) \<noteq> 0"
proof (cases "m < length ds")
  case True
  with assms(2) show ?thesis by (simp add: pm_segs_nth)
next
  case False
  with assms(3) have "m = length ds" by simp
  with assms(1,2) show ?thesis by (simp add: pm_segs_nth_dummy pm_dummy_def)
qed

lemma pm_timeline_layers_closed:
  assumes "ds \<noteq> []" and "\<forall>d\<in>set ds. d_bpm d \<noteq> 0"
  shows "pm_timeline_layers rnd scale acc ds =
           Inr (map (\<lambda>m. projr (pm_layers_at rnd scale acc (set_next (pm_segs rnd ds) m) m))
                  [0..<Suc (length ds)])"
proof -
  have ok: "\<forall>m. 0 \<le> m \<and> m < length (pm_segs rnd ds) \<longrightarrow>
              \<not> isl (pm_layers_at rnd scale acc (set_next (pm_segs rnd ds) m) m)"
  proof (intro allI impI)
    fix m assume "0 \<le> m \<and> m < length (pm_segs rnd ds)"
    then have m: "m \<le> length ds" by simp
    then have "seg_bpm (set_next (pm_segs rnd ds) m ! m) \<noteq> 0"
      using pm_segs_bpm [OF assms m, of rnd] by (simp add: set_next_nth_same)
    then show "\<not> isl (pm_layers_at rnd scale acc (set_next (pm_segs rnd ds) m) m)"
      by (rule pm_layers_at_ok)
  qed
  have "pm_clip_loop rnd scale acc (length (pm_segs rnd ds)) 0 (pm_segs rnd ds)
          = Inr (map (\<lambda>m. projr (pm_layers_at rnd scale acc (set_next (pm_segs rnd ds) m) m))
                   [0..<0 + length (pm_segs rnd ds)])"
    by (rule pm_clip_loop_closed) (use ok in simp_all)
  then show ?thesis
    by (simp add: pm_timeline_layers_def pm_get_segments_closed [OF assms])
qed

lemma pm_layer_nth:
  assumes "ds \<noteq> []" and "\<forall>d\<in>set ds. d_bpm d \<noteq> 0" and "m \<le> length ds"
  shows "\<exists>ls. pm_timeline_layers rnd scale acc ds = Inr ls \<and> length ls = Suc (length ds) \<and>
           pm_layers_at rnd scale acc (set_next (pm_segs rnd ds) m) m = Inr (ls ! m)"
proof -
  have "seg_bpm (set_next (pm_segs rnd ds) m ! m) \<noteq> 0"
    using pm_segs_bpm [OF assms, of rnd] assms(3) by (simp add: set_next_nth_same)
  then have "\<not> isl (pm_layers_at rnd scale acc (set_next (pm_segs rnd ds) m) m)"
    by (rule pm_layers_at_ok)
  then have "Inr (projr (pm_layers_at rnd scale acc (set_next (pm_segs rnd ds) m) m))
               = pm_layers_at rnd scale acc (set_next (pm_segs rnd ds) m) m"
    by (cases "pm_layers_at rnd scale acc (set_next (pm_segs rnd ds) m) m") simp_all
  moreover from assms(3) have "m < Suc (length ds)" by simp
  ultimately show ?thesis
    unfolding pm_timeline_layers_closed [OF assms(1,2)]
    by (simp add: nth_map_upt del: upt_Suc)
qed

lemma pm_no_next_built:
  assumes "m \<le> length ds"
  shows "pm_no_next (set_next (pm_segs rnd ds) m) (set_next (pm_segs rnd ds) m ! m)
           \<longleftrightarrow> length ds \<le> Suc m"
proof (cases "m < length ds")
  case True
  then have nx: "seg_next (set_next (pm_segs rnd ds) m ! m) = NextSeg (Suc m)"
    by (simp add: set_next_nth_same)
  have "seg_next (set_next (pm_segs rnd ds) m ! Suc m) = NoNext \<longleftrightarrow> length ds \<le> Suc m"
  proof (cases "Suc m < length ds")
    case True
    then show ?thesis by (simp add: set_next_nth_other pm_segs_nth)
  next
    case False
    with \<open>m < length ds\<close> have "Suc m = length ds" by simp
    then show ?thesis
      by (simp add: set_next_nth_other pm_segs_nth_dummy [of rnd ds] pm_dummy_def)
  qed
  then show ?thesis by (simp add: pm_no_next_def nx)
next
  case False
  with assms have "m = length ds" by simp
  then show ?thesis by (simp add: pm_no_next_def set_next_nth_same)
qed

lemma pm_next_sig_built:
  assumes "Suc m < length ds"
  shows "pm_next_sig (set_next (pm_segs rnd ds) m) (set_next (pm_segs rnd ds) m ! m)
           = d_sig (ds ! Suc m)"
  using assms
  by (simp add: pm_next_sig_def set_next_nth_same set_next_nth_other pm_segs_nth)

lemma sv_layers_at_agree:
  assumes "length xs = length ys" and "i < length ys"
    and "\<forall>j. i \<le> j \<and> j < length ys \<longrightarrow> xs ! j = ys ! j"
  shows "sv_layers_at rnd (set_next xs i) i = sv_layers_at rnd (set_next ys i) i"
proof -
  have same: "set_next xs i ! i = set_next ys i ! i"
    using assms by (simp add: set_next_nth_same)
  have succ: "Suc i < length ys \<Longrightarrow> set_next xs i ! Suc i = set_next ys i ! Suc i"
    using assms by (simp add: set_next_nth_other)
  have nx: "seg_next (set_next ys i ! i) = (if Suc i < length ys then NextSeg (Suc i) else NoNext)"
    using assms by (simp add: set_next_nth_same)
  have no: "sv_no_next (set_next xs i) (set_next ys i ! i)
              = sv_no_next (set_next ys i) (set_next ys i ! i)"
    using succ by (simp add: sv_no_next_def nx)
  have sg: "sv_next_sig (set_next xs i) (set_next ys i ! i)
              = sv_next_sig (set_next ys i) (set_next ys i ! i)"
    using succ by (simp add: sv_next_sig_def nx)
  have st: "sv_next_start (set_next xs i) (set_next ys i ! i)
              = sv_next_start (set_next ys i) (set_next ys i ! i)"
    using succ by (simp add: sv_next_start_def nx)
  have a: "sv_preview_clip rnd (set_next xs i) (set_next ys i ! i)
          = sv_preview_clip rnd (set_next ys i) (set_next ys i ! i)"
    by (simp only: sv_preview_clip_def no sg st)
  have b: "sv_next_clip (set_next xs i) (set_next ys i ! i)
          = sv_next_clip (set_next ys i) (set_next ys i ! i)"
    by (simp only: sv_next_clip_def no sg)
  show ?thesis
    by (simp only: sv_layers_at_def Let_def same a b)
qed

lemma sv_clip_loop_closed:
  assumes "i + k = length ys" and "length xs = length ys"
    and "\<forall>j. i \<le> j \<and> j < length ys \<longrightarrow> xs ! j = ys ! j"
    and "\<forall>m. i \<le> m \<and> m < length ys \<longrightarrow> \<not> isl (sv_layers_at rnd (set_next ys m) m)"
  shows "sv_clip_loop rnd k i xs
           = Inr (map (\<lambda>m. projr (sv_layers_at rnd (set_next ys m) m)) [i..<i + k])"
  using assms
proof (induction k arbitrary: i xs)
  case 0
  then show ?case by simp
next
  case (Suc k)
  from Suc.prems have i: "i < length ys" by simp
  have here: "sv_layers_at rnd (set_next xs i) i = sv_layers_at rnd (set_next ys i) i"
    using Suc.prems(2) i Suc.prems(3) by (rule sv_layers_at_agree)
  from Suc.prems(4) i have ok: "\<not> isl (sv_layers_at rnd (set_next ys i) i)" by simp
  have rest: "sv_clip_loop rnd k (Suc i) (set_next xs i)
     = Inr (map (\<lambda>m. projr (sv_layers_at rnd (set_next ys m) m)) [Suc i..<Suc i + k])"
  proof (rule Suc.IH)
    show "Suc i + k = length ys" using Suc.prems(1) by simp
    show "length (set_next xs i) = length ys" using Suc.prems(2) by simp
    show "\<forall>j. Suc i \<le> j \<and> j < length ys \<longrightarrow> set_next xs i ! j = ys ! j"
      using Suc.prems(3) by (simp add: set_next_nth_other)
    show "\<forall>m. Suc i \<le> m \<and> m < length ys \<longrightarrow> \<not> isl (sv_layers_at rnd (set_next ys m) m)"
      using Suc.prems(4) by simp
  qed
  from ok obtain l where l: "sv_layers_at rnd (set_next ys i) i = Inr l"
    by (cases "sv_layers_at rnd (set_next ys i) i") simp_all
  have idx: "[i..<i + Suc k] = i # [Suc i..<Suc i + k]"
    by (simp add: upt_conv_Cons del: upt_Suc)
  show ?case
    unfolding idx by (simp add: here l rest Let_def)
qed

lemma sv_layers_at_fields:
  assumes "sv_layers_at rnd segs i = Inr l"
  shows "sv_polygon_clip rnd (segs ! i) = Inr (vl_polygon l)"
    and "sv_preview_clip rnd segs (segs ! i) = Inr (vl_preview l)"
    and "vl_next l = sv_next_clip segs (segs ! i)"
    and "vl_sig l = sig_clip (segs ! i)" and "vl_bpm l = bpm_clip (segs ! i)"
  using assms by (auto simp add: sv_layers_at_def Let_def split: sum.splits)

lemma sv_layers_at_ok:
  assumes "seg_bpm (segs ! i) \<noteq> 0"
  shows "\<not> isl (sv_layers_at rnd segs i)"
  using assms
  by (simp add: sv_layers_at_def Let_def sv_polygon_clip_def make_polygon_filler_def
      sv_preview_clip_def fdiv_def)

lemma sv_segs_bpm:
  assumes "ds \<noteq> []" and "\<forall>d\<in>set ds. d_bpm d \<noteq> 0" and "m \<le> length ds"
  shows "seg_bpm (sv_segs rnd ds ! m) \<noteq> 0"
proof (cases "m < length ds")
  case True
  with assms(2) show ?thesis by (simp add: sv_segs_nth)
next
  case False
  with assms(3) have "m = length ds" by simp
  with assms(1,2) show ?thesis by (simp add: sv_segs_nth_dummy sv_dummy_def)
qed

lemma sv_timeline_layers_closed:
  assumes "ds \<noteq> []" and "\<forall>d\<in>set ds. d_bpm d \<noteq> 0"
  shows "sv_timeline_layers rnd ds =
           Inr (map (\<lambda>m. projr (sv_layers_at rnd (set_next (sv_segs rnd ds) m) m))
                  [0..<Suc (length ds)])"
proof -
  have ok: "\<forall>m. 0 \<le> m \<and> m < length (sv_segs rnd ds) \<longrightarrow>
              \<not> isl (sv_layers_at rnd (set_next (sv_segs rnd ds) m) m)"
  proof (intro allI impI)
    fix m assume "0 \<le> m \<and> m < length (sv_segs rnd ds)"
    then have m: "m \<le> length ds" by simp
    then have "seg_bpm (set_next (sv_segs rnd ds) m ! m) \<noteq> 0"
      using sv_segs_bpm [OF assms m, of rnd] by (simp add: set_next_nth_same)
    then show "\<not> isl (sv_layers_at rnd (set_next (sv_segs rnd ds) m) m)"
      by (rule sv_layers_at_ok)
  qed
  have "sv_clip_loop rnd (length (sv_segs rnd ds)) 0 (sv_segs rnd ds)
          = Inr (map (\<lambda>m. projr (sv_layers_at rnd (set_next (sv_segs rnd ds) m) m))
                   [0..<0 + length (sv_segs rnd ds)])"
    by (rule sv_clip_loop_closed) (use ok in simp_all)
  then show ?thesis
    by (simp add: sv_timeline_layers_def sv_get_segments_closed [OF assms] sv_unpack_def)
qed

lemma sv_layer_nth:
  assumes "ds \<noteq> []" and "\<forall>d\<in>set ds. d_bpm d \<noteq> 0" and "m \<le> length ds"
  shows "\<exists>ls. sv_timeline_layers rnd ds = Inr ls \<and> length ls = Suc (length ds) \<and>
           sv_layers_at rnd (set_next (sv_segs rnd ds) m) m = Inr (ls ! m)"
proof -
  have "seg_bpm (set_next (sv_segs rnd ds) m ! m) \<noteq> 0"
    using sv_segs_bpm [OF assms, of rnd] assms(3) by (simp add: set_next_nth_same)
  then have "\<not> isl (sv_layers_at rnd (set_next (sv_segs rnd ds) m) m)"
    by (rule sv_layers_at_ok)
  then have "Inr (projr (sv_layers_at rnd (set_next (sv_segs rnd ds) m) m))
               = sv_layers_at rnd (set_next (sv_segs rnd ds) m) m"
    by (cases "sv_layers_at rnd (set_next (sv_segs rnd ds) m) m") simp_all
  moreover from assms(3) have "m < Suc (length ds)" by simp
  ultimately show ?thesis
    unfolding sv_timeline_layers_closed [OF assms(1,2)]
    by (simp add: nth_map_upt del: upt_Suc)
qed

lemma sv_no_next_built:
  assumes "m \<le> length ds"
  shows "sv_no_next (set_next (sv_segs rnd ds) m) (set_next (sv_segs rnd ds) m ! m)
           \<longleftrightarrow> length ds \<le> Suc m"
proof (cases "m < length ds")
  case True
  then have nx: "seg_next (set_next (sv_segs rnd ds) m ! m) = NextSeg (Suc m)"
    by (simp add: set_next_nth_same)
  have "seg_last (set_next (sv_segs rnd ds) m ! Suc m) \<longleftrightarrow> length ds \<le> Suc m"
  proof (cases "Suc m < length ds")
    case True
    then show ?thesis by (simp add: set_next_nth_other sv_segs_nth)
  next
    case False
    with \<open>m < length ds\<close> have "Suc m = length ds" by simp
    then show ?thesis
      by (simp add: set_next_nth_other sv_segs_nth_dummy [of rnd ds] sv_dummy_def)
  qed
  then show ?thesis by (simp add: sv_no_next_def nx)
next
  case False
  with assms have "m = length ds" by simp
  then show ?thesis by (simp add: sv_no_next_def set_next_nth_same)
qed

lemma sv_next_sig_built:
  assumes "Suc m < length ds"
  shows "sv_next_sig (set_next (sv_segs rnd ds) m) (set_next (sv_segs rnd ds) m ! m)
           = d_sig (ds ! Suc m)"
  using assms
  by (simp add: sv_next_sig_def set_next_nth_same set_next_nth_other sv_segs_nth)

lemma pm_layer_explicit:
  assumes "ds \<noteq> []" and "\<forall>d\<in>set ds. d_bpm d \<noteq> 0" and "Suc m < length ds"
    and "pm_timeline_layers rnd scale acc ds = Inr ls"
  shows "ly_next (ls ! m) =
           Some \<lparr>clip_start = running rnd (pm_dur rnd) 0 (take m ds),
                 clip_duration = pm_dur rnd (ds ! m),
                 clip_content = NextText (d_sig (ds ! Suc m))\<rparr>"
    and "ly_bar (ls ! m) =
           Some \<lparr>clip_start = running rnd (pm_dur rnd) 0 (take m ds),
                 clip_duration = pm_dur rnd (ds ! m),
                 clip_content = BarIndicator
                   \<lparr>bi_dur = pm_dur rnd (ds ! m), bi_beats_per_bar = fst (d_sig (ds ! m)),
                    bi_bpm = d_bpm (ds ! m), bi_accent_color = acc, bi_scale = scale\<rparr>\<rparr>"
    and "ly_preview (ls ! m) =
           Some \<lparr>clip_start = rnd (running rnd (pm_dur rnd) 0 (take (Suc m) ds) - pm_bar rnd (ds ! m)),
                 clip_duration = rnd (running rnd (pm_dur rnd) 0 (take (Suc m) ds)
                    - rnd (running rnd (pm_dur rnd) 0 (take (Suc m) ds) - pm_bar rnd (ds ! m))),
                 clip_content = PreviewAcos
                   \<lparr>pv_vertices = fst (d_sig (ds ! Suc m)),
                    pv_start = rnd (running rnd (pm_dur rnd) 0 (take (Suc m) ds)
                                     - pm_bar rnd (ds ! m)),
                    pv_end = running rnd (pm_dur rnd) 0 (take (Suc m) ds),
                    pv_accent_color = acc\<rparr>\<rparr>"
proof -
  let ?segs = "set_next (pm_segs rnd ds) m"
  from assms(3) have m: "m \<le> length ds" and m': "m < length ds" by simp_all
  from pm_layer_nth [OF assms(1,2) m, of rnd scale acc] assms(4)
  have at: "pm_layers_at rnd scale acc ?segs m = Inr (ls ! m)" by simp
  note f = pm_layers_at_fields [OF at]
  have no: "\<not> pm_no_next ?segs (?segs ! m)"
    using pm_no_next_built [OF m, of rnd] assms(3) by simp
  have seg: "?segs ! m = (pm_segs rnd ds ! m)\<lparr>seg_next := NextSeg (Suc m)\<rparr>"
    using m' by (simp add: set_next_nth_same)
  have nz: "d_bpm (ds ! m) \<noteq> 0" using assms(2) m' by simp
  note sg = pm_next_sig_built [OF assms(3), of rnd]
  have fl: "seg_start (?segs ! m) = running rnd (pm_dur rnd) 0 (take m ds)"
    "seg_end (?segs ! m) = running rnd (pm_dur rnd) 0 (take (Suc m) ds)"
    "seg_dur (?segs ! m) = pm_dur rnd (ds ! m)" "seg_sig (?segs ! m) = d_sig (ds ! m)"
    "seg_bpm (?segs ! m) = d_bpm (ds ! m)"
    by (simp_all add: seg pm_segs_nth [OF m'])
  show "ly_next (ls ! m) =
           Some \<lparr>clip_start = running rnd (pm_dur rnd) 0 (take m ds),
                 clip_duration = pm_dur rnd (ds ! m),
                 clip_content = NextText (d_sig (ds ! Suc m))\<rparr>"
    using no by (simp add: f(3) pm_next_clip_def sg fl)
  show "ly_bar (ls ! m) =
           Some \<lparr>clip_start = running rnd (pm_dur rnd) 0 (take m ds),
                 clip_duration = pm_dur rnd (ds ! m),
                 clip_content = BarIndicator
                   \<lparr>bi_dur = pm_dur rnd (ds ! m), bi_beats_per_bar = fst (d_sig (ds ! m)),
                    bi_bpm = d_bpm (ds ! m), bi_accent_color = acc, bi_scale = scale\<rparr>\<rparr>"
    using no by (simp add: f(4) pm_bar_clip_def fl)
  have "pm_preview_clip rnd ?segs (?segs ! m) acc =
          Inr (Some \<lparr>clip_start = rnd (running rnd (pm_dur rnd) 0 (take (Suc m) ds) - pm_bar rnd (ds ! m)),
                 clip_duration = rnd (running rnd (pm_dur rnd) 0 (take (Suc m) ds)
                    - rnd (running rnd (pm_dur rnd) 0 (take (Suc m) ds) - pm_bar rnd (ds ! m))),
                 clip_content = PreviewAcos
                   \<lparr>pv_vertices = fst (d_sig (ds ! Suc m)),
                    pv_start = rnd (running rnd (pm_dur rnd) 0 (take (Suc m) ds)
                                     - pm_bar rnd (ds ! m)),
                    pv_end = running rnd (pm_dur rnd) 0 (take (Suc m) ds),
                    pv_accent_color = acc\<rparr>\<rparr>)"
    using no nz by (simp add: pm_preview_clip_def sg fl fdiv_def pm_bar_def Let_def)
  with f(2) show "ly_preview (ls ! m) =
           Some \<lparr>clip_start = rnd (running rnd (pm_dur rnd) 0 (take (Suc m) ds) - pm_bar rnd (ds ! m)),
                 clip_duration = rnd (running rnd (pm_dur rnd) 0 (take (Suc m) ds)
                    - rnd (running rnd (pm_dur rnd) 0 (take (Suc m) ds) - pm_bar rnd (ds ! m))),
                 clip_content = PreviewAcos
                   \<lparr>pv_vertices = fst (d_sig (ds ! Suc m)),
                    pv_start = rnd (running rnd (pm_dur rnd) 0 (take (Suc m) ds)
                                     - pm_bar rnd (ds ! m)),
                    pv_end = running rnd (pm_dur rnd) 0 (take (Suc m) ds),
                    pv_accent_color = acc\<rparr>\<rparr>"
    by simp
qed

lemma pm_layer_suppressed:
  assumes "ds \<noteq> []" and "\<forall>d\<in>set ds. d_bpm d \<noteq> 0" and "m \<le> length ds"
    and "length ds \<le> Suc m" and "pm_timeline_layers rnd scale acc ds = Inr ls"
  shows "ly_next (ls ! m) = None" and "ly_bar (ls ! m) = None" and "ly_preview (ls ! m) = None"
proof -
  let ?segs = "set_next (pm_segs rnd ds) m"
  from pm_layer_nth [OF assms(1-3), of rnd scale acc] assms(5)
  have at: "pm_layers_at rnd scale acc ?segs m = Inr (ls ! m)" by simp
  note f = pm_layers_at_fields [OF at]
  have no: "pm_no_next ?segs (?segs ! m)"
    using pm_no_next_built [OF assms(3), of rnd] assms(4) by simp
  show "ly_next (ls ! m) = None" using no by (simp add: f(3) pm_next_clip_def)
  show "ly_bar (ls ! m) = None" using no by (simp add: f(4) pm_bar_clip_def)
  show "ly_preview (ls ! m) = None" using no f(2) by (simp add: pm_preview_clip_def)
qed

lemma sv_layer_explicit:
  assumes "ds \<noteq> []" and "\<forall>d\<in>set ds. d_bpm d \<noteq> 0" and "Suc m < length ds"
    and "sv_timeline_layers rnd ds = Inr ls"
  shows "vl_next (ls ! m) =
           \<lparr>clip_start = running rnd (sv_dur rnd) 0 (take m ds),
            clip_duration = sv_dur rnd (ds ! m),
            clip_content = NextText (d_sig (ds ! Suc m))\<rparr>"
    and "vl_preview (ls ! m) =
           \<lparr>clip_start = rnd (running rnd (sv_dur rnd) 0 (take (Suc m) ds) - pm_bar rnd (ds ! m)),
            clip_duration = rnd (running rnd (sv_dur rnd) 0 (take (Suc m) ds)
               - rnd (running rnd (sv_dur rnd) 0 (take (Suc m) ds) - pm_bar rnd (ds ! m))),
            clip_content = PreviewPow
              \<lparr>pv_vertices = fst (d_sig (ds ! Suc m)),
               pv_start = rnd (running rnd (sv_dur rnd) 0 (take (Suc m) ds)
                                - pm_bar rnd (ds ! m)),
               pv_end = running rnd (sv_dur rnd) 0 (take (Suc m) ds),
               pv_accent_color = ACCENT_COLOR\<rparr>\<rparr>"
proof -
  let ?segs = "set_next (sv_segs rnd ds) m"
  from assms(3) have m: "m \<le> length ds" and m': "m < length ds" by simp_all
  from sv_layer_nth [OF assms(1,2) m, of rnd] assms(4)
  have at: "sv_layers_at rnd ?segs m = Inr (ls ! m)" by simp
  note f = sv_layers_at_fields [OF at]
  have no: "\<not> sv_no_next ?segs (?segs ! m)"
    using sv_no_next_built [OF m, of rnd] assms(3) by simp
  have seg: "?segs ! m = (sv_segs rnd ds ! m)\<lparr>seg_next := NextSeg (Suc m)\<rparr>"
    using m' by (simp add: set_next_nth_same)
  have nz: "d_bpm (ds ! m) \<noteq> 0" using assms(2) m' by simp
  have st: "sv_next_start ?segs (?segs ! m) = running rnd (sv_dur rnd) 0 (take (Suc m) ds)"
    using assms(3) by (simp add: sv_next_start_def seg set_next_nth_other sv_segs_nth)
  note sg = sv_next_sig_built [OF assms(3), of rnd]
  have fl: "seg_start (?segs ! m) = running rnd (sv_dur rnd) 0 (take m ds)"
    "seg_end (?segs ! m) = running rnd (sv_dur rnd) 0 (take (Suc m) ds)"
    "seg_dur (?segs ! m) = sv_dur rnd (ds ! m)" "seg_sig (?segs ! m) = d_sig (ds ! m)"
    "seg_bpm (?segs ! m) = d_bpm (ds ! m)"
    by (simp_all add: seg sv_segs_nth [OF m'])
  show "vl_next (ls ! m) =
           \<lparr>clip_start = running rnd (sv_dur rnd) 0 (take m ds),
            clip_duration = sv_dur rnd (ds ! m),
            clip_content = NextText (d_sig (ds ! Suc m))\<rparr>"
    using no by (simp add: f(3) sv_next_clip_def sg fl)
  have "sv_preview_clip rnd ?segs (?segs ! m) =
          Inr \<lparr>clip_start = rnd (running rnd (sv_dur rnd) 0 (take (Suc m) ds) - pm_bar rnd (ds ! m)),
            clip_duration = rnd (running rnd (sv_dur rnd) 0 (take (Suc m) ds)
               - rnd (running rnd (sv_dur rnd) 0 (take (Suc m) ds) - pm_bar rnd (ds ! m))),
            clip_content = PreviewPow
              \<lparr>pv_vertices = fst (d_sig (ds ! Suc m)),
               pv_start = rnd (running rnd (sv_dur rnd) 0 (take (Suc m) ds)
                                - pm_bar rnd (ds ! m)),
               pv_end = running rnd (sv_dur rnd) 0 (take (Suc m) ds),
               pv_accent_color = ACCENT_COLOR\<rparr>\<rparr>"
    using no nz by (simp add: sv_preview_clip_def sg st fl fdiv_def pm_bar_def Let_def)
  with f(2) show "vl_preview (ls ! m) =
           \<lparr>clip_start = rnd (running rnd (sv_dur rnd) 0 (take (Suc m) ds) - pm_bar rnd (ds ! m)),
            clip_duration = rnd (running rnd (sv_dur rnd) 0 (take (Suc m) ds)
               - rnd (running rnd (sv_dur rnd) 0 (take (Suc m) ds) - pm_bar rnd (ds ! m))),
            clip_content = PreviewPow
              \<lparr>pv_vertices = fst (d_sig (ds ! Suc m)),
               pv_start = rnd (running rnd (sv_dur rnd) 0 (take (Suc m) ds)
                                - pm_bar rnd (ds ! m)),
               pv_end = running rnd (sv_dur rnd) 0 (take (Suc m) ds),
               pv_accent_color = ACCENT_COLOR\<rparr>\<rparr>"
    by simp
qed

lemma sv_layer_suppressed:
  assumes "ds \<noteq> []" and "\<forall>d\<in>set ds. d_bpm d \<noteq> 0" and "m \<le> length ds"
    and "length ds \<le> Suc m" and "sv_timeline_layers rnd ds = Inr ls"
  shows "vl_next (ls ! m) = sv_blank" and "vl_preview (ls ! m) = sv_blank"
proof -
  let ?segs = "set_next (sv_segs rnd ds) m"
  from sv_layer_nth [OF assms(1-3), of rnd] assms(5)
  have at: "sv_layers_at rnd ?segs m = Inr (ls ! m)" by simp
  note f = sv_layers_at_fields [OF at]
  have no: "sv_no_next ?segs (?segs ! m)"
    using sv_no_next_built [OF assms(3), of rnd] assms(4) by simp
  show "vl_next (ls ! m) = sv_blank" using no by (simp add: f(3) sv_next_clip_def)
  show "vl_preview (ls ! m) = sv_blank" using no f(2) by (simp add: sv_preview_clip_def)
qed

lemma pm_layer_next_preview:
  assumes "ds \<noteq> []" and "\<forall>d\<in>set ds. d_bpm d \<noteq> 0" and "m \<le> length ds"
    and "pm_timeline_layers rnd scale acc ds = Inr ls"
  shows "if Suc m < length ds
         then (\<exists>c. ly_next (ls ! m) = Some c \<and> clip_content c = NextText (d_sig (ds ! Suc m))) \<and>
              (\<exists>c pv. ly_preview (ls ! m) = Some c \<and> clip_content c = PreviewAcos pv \<and>
                 pv_vertices pv = fst (d_sig (ds ! Suc m)))
         else ly_next (ls ! m) = None \<and> ly_preview (ls ! m) = None"
proof (cases "Suc m < length ds")
  case True
  from pm_layer_explicit(1,3) [OF assms(1,2) True assms(4)] True show ?thesis by simp
next
  case False
  then have "length ds \<le> Suc m" by simp
  from pm_layer_suppressed(1,3) [OF assms(1-3) this assms(4)] False show ?thesis by simp
qed

lemma sv_layer_next_preview:
  assumes "ds \<noteq> []" and "\<forall>d\<in>set ds. d_bpm d \<noteq> 0" and "m \<le> length ds"
    and "sv_timeline_layers rnd ds = Inr ls"
  shows "if Suc m < length ds
         then clip_content (vl_next (ls ! m)) = NextText (d_sig (ds ! Suc m)) \<and>
              (\<exists>pv. clip_content (vl_preview (ls ! m)) = PreviewPow pv \<and>
                 pv_vertices pv = fst (d_sig (ds ! Suc m)))
         else vl_next (ls ! m) = sv_blank \<and> vl_preview (ls ! m) = sv_blank"
proof (cases "Suc m < length ds")
  case True
  from sv_layer_explicit [OF assms(1,2) True assms(4)] True show ?thesis by simp
next
  case False
  then have "length ds \<le> Suc m" by simp
  from sv_layer_suppressed [OF assms(1-3) this assms(4)] False show ?thesis by simp
qed

lemmas tl_eval = pm_timeline_layers_def pm_get_segments_def pm_init_def sv_timeline_layers_def
  sv_get_segments_def sv_init_def sv_unpack_def fdiv_def Let_def eval_nat_numeral
  pm_layers_at_def sv_layers_at_def set_next_def pm_polygon_clip_def sv_polygon_clip_def
  make_polygon_filler_def pm_preview_clip_def sv_preview_clip_def pm_no_next_def sv_no_next_def
  pm_next_sig_def sv_next_sig_def sv_next_start_def pm_next_clip_def sv_next_clip_def
  pm_bar_clip_def sig_clip_def bpm_clip_def

section \<open>Properties of the timeline builders\<close>

subsection \<open>Empty input\<close>

text \<open>
  Claim C4. For the empty descriptor list, segment construction fails before any layer is
  built: \<open>_get_segments\<close> of polygonal_metre.py raises on reading the unbound
  \<open>bar_duration\<close>, the generator of signature_visualizer.py raises on reading the unbound
  \<open>sig\<close> before it has yielded anything, and in both files \<open>create_signature_video\<close> ends
  with that error, with no timeline and no clip.
\<close>

theorem empty_map_fails:
  "pm_get_segments rnd [] = Inl (UnboundLocalError ''bar_duration'') \<and>
   pm_create_signature_video rnd scale accent_color [] total_duration
     = Inl (UnboundLocalError ''bar_duration'') \<and>
   sv_get_segments rnd [] = ([], Inl (UnboundLocalError ''sig'')) \<and>
   sv_unpack (sv_get_segments rnd []) = Inl (UnboundLocalError ''sig'') \<and>
   sv_create_signature_video rnd [] total_duration = Inl (UnboundLocalError ''sig'')"
  by (simp add: pm_get_segments_def pm_init_def pm_create_signature_video_def
      sv_get_segments_def sv_init_def sv_unpack_def sv_create_signature_video_def)

subsection \<open>The terminal segment\<close>

text \<open>
  Claim C5. For a non-empty descriptor list (tempos not zero, so that no division
  raises) both builders return a timeline of one segment per descriptor and one more,
  the synthetic terminal bar. It is the last segment and the only one that is flagged:
  polygonal_metre.py has no flag of its own and recognises the terminal segment by its
  \<open>next\<close> being \<open>None\<close>, signature_visualizer.py sets \<open>last\<close>. Its duration is
  \<open>beats_per_bar * 60 / bpm\<close> of the segment before it (the last authored one), whose
  signature and tempo it carries, and it starts where that segment ends.
\<close>

theorem terminal_segment:
  assumes "ds \<noteq> []" and "\<forall>d\<in>set ds. d_bpm d \<noteq> 0"
  shows "(\<exists>segs ft. pm_get_segments rnd ds = Inr (segs, ft) \<and> length segs = Suc (length ds) \<and>
            (let prev = segs ! (length ds - 1); term = last segs
             in seg_next term = NoNext \<and> (\<forall>i<length ds. seg_next (segs ! i) \<noteq> NoNext) \<and>
                seg_dur term = rnd (of_int (fst (seg_sig prev) * 60) / seg_bpm prev) \<and>
                seg_sig term = seg_sig prev \<and> seg_bpm term = seg_bpm prev \<and>
                seg_sig prev = d_sig (last ds) \<and> seg_bpm prev = d_bpm (last ds) \<and>
                seg_start term = seg_end prev \<and>
                seg_end term = rnd (seg_start term + seg_dur term))) \<and>
         (\<exists>segs ft. sv_unpack (sv_get_segments rnd ds) = Inr (segs, ft) \<and>
            length segs = Suc (length ds) \<and>
            (let prev = segs ! (length ds - 1); term = last segs
             in seg_last term \<and> (\<forall>i<length ds. \<not> seg_last (segs ! i)) \<and>
                seg_dur term = rnd (of_int (fst (seg_sig prev) * 60) / seg_bpm prev) \<and>
                seg_sig term = seg_sig prev \<and> seg_bpm term = seg_bpm prev \<and>
                seg_sig prev = d_sig (last ds) \<and> seg_bpm prev = d_bpm (last ds) \<and>
                seg_start term = seg_end prev \<and>
                seg_end term = rnd (seg_start term + seg_dur term)))"
proof -
  have pm: "\<forall>i<length ds. seg_next (pm_segs rnd ds ! i) \<noteq> NoNext"
    by (simp add: pm_segs_nth)
  have sv: "\<forall>i<length ds. \<not> seg_last (sv_segs rnd ds ! i)"
    by (simp add: sv_segs_nth)
  show ?thesis
    using pm sv
    by (simp add: pm_get_segments_closed [OF assms] sv_get_segments_closed [OF assms]
        sv_unpack_def pm_segs_last sv_segs_last pm_segs_prev [OF assms(1)]
        sv_segs_prev [OF assms(1)] pm_dummy_def sv_dummy_def pm_bar_def Let_def)
qed

theorem terminal_segment_witness:
  "(\<exists>segs ft. pm_get_segments exact example_map = Inr (segs, ft) \<and> length segs = 3 \<and>
      seg_next (last segs) = NoNext \<and> seg_dur (last segs) = 3 / 2 \<and>
      seg_sig (last segs) = (3, 4) \<and> seg_bpm (last segs) = 120) \<and>
   (\<exists>segs ft. sv_unpack (sv_get_segments exact example_map) = Inr (segs, ft) \<and> length segs = 3 \<and>
      seg_last (last segs) \<and> seg_dur (last segs) = 3 / 2 \<and>
      seg_sig (last segs) = (3, 4) \<and> seg_bpm (last segs) = 120)"
  using terminal_segment [of example_map exact]
  by (auto simp add: example_map_def exact_def Let_def)

subsection \<open>The final time\<close>

text \<open>
  Claim C1, as stated, fails. For one descriptor of two 4/4 bars at 120 bpm the authored
  segment ends at 4, which is the running total, the terminal bar spans 4 to 6, and both
  builders return the final time 8: after the loop \<open>current_time\<close> already is the running
  total, and \<open>final_time = current_time + segment_duration\<close> adds the duration of the last
  authored segment once more. All numbers of this run are binary fractions, so the
  result is the same with and without rounding.
\<close>

theorem final_time_counterexample:
  "pm_get_segments round_double [\<lparr>d_sig = (4, 4), d_bpm = 120, d_bars = 2\<rparr>] =
     Inr ([\<lparr>seg_start = 0, seg_end = 4, seg_dur = 4, seg_sig = (4, 4), seg_bpm = 120,
            seg_next = NextSeg 1\<rparr>,
           \<lparr>seg_start = 4, seg_end = 6, seg_dur = 2, seg_sig = (4, 4), seg_bpm = 120,
            seg_next = NoNext\<rparr>], 8) \<and>
   sv_unpack (sv_get_segments round_double [\<lparr>d_sig = (4, 4), d_bpm = 120, d_bars = 2\<rparr>]) =
     Inr ([\<lparr>seg_start = 0, seg_end = 4, seg_dur = 4, seg_sig = (4, 4), seg_bpm = 120,
            seg_next = NoNext, seg_last = False\<rparr>,
           \<lparr>seg_start = 4, seg_end = 6, seg_dur = 2, seg_sig = (4, 4), seg_bpm = 120,
            seg_next = NoNext, seg_last = True\<rparr>], 8)"
  by (simp add: pm_get_segments_def pm_init_def sv_get_segments_def sv_init_def sv_unpack_def
      fdiv_def rd_eval)

text \<open>
  Claim C1, amended. For a non-empty descriptor list (tempos not zero) the final time
  is the end of the last authored segment (the running total, which is also the start of
  the terminal bar) plus the duration of the last authored segment.
\<close>

theorem final_time_value:
  assumes "ds \<noteq> []" and "\<forall>d\<in>set ds. d_bpm d \<noteq> 0"
  shows "(\<exists>segs ft. pm_get_segments rnd ds = Inr (segs, ft) \<and>
            (let a = segs ! (length ds - 1)
             in ft = rnd (seg_end a + seg_dur a) \<and> seg_start (last segs) = seg_end a)) \<and>
         (\<exists>segs ft. sv_unpack (sv_get_segments rnd ds) = Inr (segs, ft) \<and>
            (let a = segs ! (length ds - 1)
             in ft = rnd (seg_end a + seg_dur a) \<and> seg_start (last segs) = seg_end a))"
  by (simp add: pm_get_segments_closed [OF assms] sv_get_segments_closed [OF assms]
      sv_unpack_def pm_segs_last sv_segs_last pm_segs_prev [OF assms(1)]
      sv_segs_prev [OF assms(1)] pm_dummy_def sv_dummy_def Let_def)

theorem final_time_value_witness:
  "(\<exists>segs ft. pm_get_segments exact example_map = Inr (segs, ft) \<and>
      ft = exact (seg_end (segs ! 1) + seg_dur (segs ! 1)) \<and> ft = 7 / 2 + 3 / 2) \<and>
   (\<exists>segs ft. sv_unpack (sv_get_segments exact example_map) = Inr (segs, ft) \<and>
      ft = exact (seg_end (segs ! 1) + seg_dur (segs ! 1)) \<and> ft = 7 / 2 + 3 / 2)"
  using final_time_value [of example_map exact]
  by (simp add: pm_example sv_example) (simp add: example_map_def)

subsection \<open>The two builders compared\<close>

text \<open>
  Claim C9, as stated, fails in double precision. polygonal_metre.py computes a segment
  duration as \<open>bars * (beats_per_bar * 60 / bpm)\<close>, signature_visualizer.py as
  \<open>(bars * beats_per_bar) * (60 / bpm)\<close>. For one bar of 3/4 at 100 bpm the first is the
  double nearest to 1.8 and the second is the double below it, so the two timelines
  differ in the duration and the end of the authored segment, in the start and the end of
  the terminal bar and in the final time.
\<close>

theorem builders_differ_in_double:
  "pm_get_segments round_double [\<lparr>d_sig = (3, 4), d_bpm = 100, d_bars = 1\<rparr>] =
     Inr ([\<lparr>seg_start = 0, seg_end = 8106479329266893 / 4503599627370496,
            seg_dur = 8106479329266893 / 4503599627370496, seg_sig = (3, 4), seg_bpm = 100,
            seg_next = NextSeg 1\<rparr>,
           \<lparr>seg_start = 8106479329266893 / 4503599627370496,
            seg_end = 8106479329266893 / 2251799813685248,
            seg_dur = 8106479329266893 / 4503599627370496, seg_sig = (3, 4), seg_bpm = 100,
            seg_next = NoNext\<rparr>], 8106479329266893 / 2251799813685248) \<and>
   sv_unpack (sv_get_segments round_double [\<lparr>d_sig = (3, 4), d_bpm = 100, d_bars = 1\<rparr>]) =
     Inr ([\<lparr>seg_start = 0, seg_end = 2026619832316723 / 1125899906842624,
            seg_dur = 2026619832316723 / 1125899906842624, seg_sig = (3, 4), seg_bpm = 100,
            seg_next = NoNext, seg_last = False\<rparr>,
           \<lparr>seg_start = 2026619832316723 / 1125899906842624,
            seg_end = 2026619832316723 / 562949953421312,
            seg_dur = 8106479329266893 / 4503599627370496, seg_sig = (3, 4), seg_bpm = 100,
            seg_next = NoNext, seg_last = True\<rparr>], 2026619832316723 / 562949953421312) \<and>
   timeline_core (projr (pm_get_segments round_double
       [\<lparr>d_sig = (3, 4), d_bpm = 100, d_bars = 1\<rparr>])) \<noteq>
   timeline_core (projr (sv_unpack (sv_get_segments round_double
       [\<lparr>d_sig = (3, 4), d_bpm = 100, d_bars = 1\<rparr>])))"
  by (simp add: pm_get_segments_def pm_init_def sv_get_segments_def sv_init_def sv_unpack_def
      fdiv_def rd_eval timeline_core_def seg_core_def)

lemma seg_core_next_update:
  "map seg_core (xs[i := (xs ! i)\<lparr>seg_next := v\<rparr>]) = map seg_core xs"
  by (cases "i < length xs") (auto simp add: list_eq_iff_nth_eq nth_list_update seg_core_def)

lemma sig_bpm_next_update:
  "map (\<lambda>s. (seg_sig s, seg_bpm s)) (xs[i := (xs ! i)\<lparr>seg_next := v\<rparr>])
     = map (\<lambda>s. (seg_sig s, seg_bpm s)) xs"
  by (cases "i < length xs") (auto simp add: list_eq_iff_nth_eq nth_list_update)

lemma sig_bpm_pm_built:
  "map (\<lambda>s. (seg_sig s, seg_bpm s)) (pm_built rnd t ds) = map (\<lambda>d. (d_sig d, d_bpm d)) ds"
  by (induction ds arbitrary: t) simp_all

lemma sig_bpm_sv_built:
  "map (\<lambda>s. (seg_sig s, seg_bpm s)) (sv_built rnd t ds) = map (\<lambda>d. (d_sig d, d_bpm d)) ds"
  by (induction ds arbitrary: t) simp_all

lemma exact_durations: "sv_dur exact d = pm_dur exact d"
  by (simp add: sv_dur_def pm_dur_def pm_bar_def exact_def)

lemma exact_dur_fun: "sv_dur exact = pm_dur exact"
  by (rule ext) (rule exact_durations)

lemma exact_built_core:
  "map seg_core (sv_built exact t ds) = map seg_core (pm_built exact t ds)"
  by (induction ds arbitrary: t) (simp_all add: seg_core_def exact_durations)

text \<open>
  Claim C9, amended. For a non-empty descriptor list the two builders agree in exact
  arithmetic: both fail with the same error, or both return the same start, end, duration,
  signature and tempo for every segment, the terminal bar included, and the same final
  time. With any rounding they still agree on the signatures and tempos of the segments.
\<close>

theorem builders_agree:
  assumes "ds \<noteq> []"
  shows "map_sum id timeline_core (pm_get_segments exact ds)
           = map_sum id timeline_core (sv_unpack (sv_get_segments exact ds)) \<and>
         map_sum id sig_bpm (pm_get_segments rnd ds)
           = map_sum id sig_bpm (sv_unpack (sv_get_segments rnd ds))"
proof (cases "\<forall>d\<in>set ds. d_bpm d \<noteq> 0")
  case True
  show ?thesis
    by (simp add: pm_get_segments_closed [OF assms True] sv_get_segments_closed [OF assms True]
        sv_unpack_def timeline_core_def sig_bpm_def pm_segs_def sv_segs_def
        seg_core_next_update sig_bpm_next_update exact_built_core sig_bpm_pm_built
        sig_bpm_sv_built exact_dur_fun)
      (simp add: seg_core_def pm_dummy_def sv_dummy_def exact_dur_fun)
next
  case False
  then have "\<exists>d\<in>set ds. d_bpm d = 0" by simp
  then show ?thesis
    by (simp add: pm_get_segments_zero_bpm sv_get_segments_zero_bpm)
qed

theorem builders_agree_witness:
  "map_sum id timeline_core (pm_get_segments exact example_map)
     = map_sum id timeline_core (sv_unpack (sv_get_segments exact example_map)) \<and>
   map_sum id timeline_core (pm_get_segments exact example_map)
     = Inr ([(0, 2, 2, (4, 4), 120), (2, 7 / 2, 3 / 2, (3, 4), 120),
             (7 / 2, 5, 3 / 2, (3, 4), 120)], 5) \<and>
   map_sum id sig_bpm (pm_get_segments round_double example_map)
     = map_sum id sig_bpm (sv_unpack (sv_get_segments round_double example_map))"
  using builders_agree [of example_map round_double]
  by (simp add: pm_example timeline_core_def seg_core_def) (simp add: example_map_def)

section \<open>Properties of the composition drivers\<close>

subsection \<open>Which segments get the layers of the next signature\<close>

text \<open>
  Claim C7. For a timeline built from a non-empty descriptor list (tempos not zero),
  with \<open>n\<close> authored segments at the positions \<open>0..n-1\<close> and the terminal bar at \<open>n\<close>: every
  segment before the last authored one gets a "next signature" text layer and a
  transition preview layer, both showing the signature of its successor; the last authored
  segment (the second-to-last of the timeline) and the terminal segment get neither. In
  polygonal_metre.py the two functions return \<open>None\<close> there, and in
  signature_visualizer.py they return a blank clip of duration zero, which shows
  nothing.
\<close>

theorem next_layers_suppressed:
  assumes "ds \<noteq> []" and "\<forall>d\<in>set ds. d_bpm d \<noteq> 0"
  shows "(\<exists>ls. pm_timeline_layers rnd scale acc ds = Inr ls \<and> length ls = Suc (length ds) \<and>
            (\<forall>i<Suc (length ds).
               if Suc i < length ds
               then (\<exists>c. ly_next (ls ! i) = Some c \<and>
                       clip_content c = NextText (d_sig (ds ! Suc i))) \<and>
                    (\<exists>c pv. ly_preview (ls ! i) = Some c \<and> clip_content c = PreviewAcos pv \<and>
                       pv_vertices pv = fst (d_sig (ds ! Suc i)))
               else ly_next (ls ! i) = None \<and> ly_preview (ls ! i) = None)) \<and>
         (\<exists>ls. sv_timeline_layers rnd ds = Inr ls \<and> length ls = Suc (length ds) \<and>
            (\<forall>i<Suc (length ds).
               if Suc i < length ds
               then clip_content (vl_next (ls ! i)) = NextText (d_sig (ds ! Suc i)) \<and>
                    (\<exists>pv. clip_content (vl_preview (ls ! i)) = PreviewPow pv \<and>
                       pv_vertices pv = fst (d_sig (ds ! Suc i)))
               else vl_next (ls ! i) = sv_blank \<and> vl_preview (ls ! i) = sv_blank))"
proof (intro conjI)
  from pm_layer_nth [OF assms, of 0 rnd scale acc]
  obtain ls where ls: "pm_timeline_layers rnd scale acc ds = Inr ls"
    and len: "length ls = Suc (length ds)" by auto
  show "\<exists>ls. pm_timeline_layers rnd scale acc ds = Inr ls \<and> length ls = Suc (length ds) \<and>
            (\<forall>i<Suc (length ds).
               if Suc i < length ds
               then (\<exists>c. ly_next (ls ! i) = Some c \<and>
                       clip_content c = NextText (d_sig (ds ! Suc i))) \<and>
                    (\<exists>c pv. ly_preview (ls ! i) = Some c \<and> clip_content c = PreviewAcos pv \<and>
                       pv_vertices pv = fst (d_sig (ds ! Suc i)))
               else ly_next (ls ! i) = None \<and> ly_preview (ls ! i) = None)"
  proof (intro exI conjI allI impI)
    show "pm_timeline_layers rnd scale acc ds = Inr ls" by (rule ls)
    show "length ls = Suc (length ds)" by (rule len)
    fix i assume "i < Suc (length ds)"
    then have "i \<le> length ds" by simp
    from pm_layer_next_preview [OF assms this ls]
    show "if Suc i < length ds
          then (\<exists>c. ly_next (ls ! i) = Some c \<and>
                  clip_content c = NextText (d_sig (ds ! Suc i))) \<and>
               (\<exists>c pv. ly_preview (ls ! i) = Some c \<and> clip_content c = PreviewAcos pv \<and>
                  pv_vertices pv = fst (d_sig (ds ! Suc i)))
          else ly_next (ls ! i) = None \<and> ly_preview (ls ! i) = None" .
  qed
next
  from sv_layer_nth [OF assms, of 0 rnd]
  obtain ls where ls: "sv_timeline_layers rnd ds = Inr ls"
    and len: "length ls = Suc (length ds)" by auto
  show "\<exists>ls. sv_timeline_layers rnd ds = Inr ls \<and> length ls = Suc (length ds) \<and>
            (\<forall>i<Suc (length ds).
               if Suc i < length ds
               then clip_content (vl_next (ls ! i)) = NextText (d_sig (ds ! Suc i)) \<and>
                    (\<exists>pv. clip_content (vl_preview (ls ! i)) = PreviewPow pv \<and>
                       pv_vertices pv = fst (d_sig (ds ! Suc i)))
               else vl_next (ls ! i) = sv_blank \<and> vl_preview (ls ! i) = sv_blank)"
  proof (intro exI conjI allI impI)
    show "sv_timeline_layers rnd ds = Inr ls" by (rule ls)
    show "length ls = Suc (length ds)" by (rule len)
    fix i assume "i < Suc (length ds)"
    then have "i \<le> length ds" by simp
    from sv_layer_next_preview [OF assms this ls]
    show "if Suc i < length ds
          then clip_content (vl_next (ls ! i)) = NextText (d_sig (ds ! Suc i)) \<and>
               (\<exists>pv. clip_content (vl_preview (ls ! i)) = PreviewPow pv \<and>
                  pv_vertices pv = fst (d_sig (ds ! Suc i)))
          else vl_next (ls ! i) = sv_blank \<and> vl_preview (ls ! i) = sv_blank" .
  qed
qed

theorem next_layers_suppressed_witness:
  "(\<exists>ls. pm_timeline_layers exact 1 (0, 100, 255) example_map = Inr ls \<and> length ls = 3 \<and>
      (\<exists>c. ly_next (ls ! 0) = Some c \<and> clip_content c = NextText (3, 4)) \<and>
      (\<exists>c pv. ly_preview (ls ! 0) = Some c \<and> clip_content c = PreviewAcos pv \<and>
         pv_vertices pv = 3) \<and>
      ly_next (ls ! 1) = None \<and> ly_preview (ls ! 1) = None \<and>
      ly_next (ls ! 2) = None \<and> ly_preview (ls ! 2) = None) \<and>
   (\<exists>ls. sv_timeline_layers exact example_map = Inr ls \<and> length ls = 3 \<and>
      clip_content (vl_next (ls ! 0)) = NextText (3, 4) \<and>
      (\<exists>pv. clip_content (vl_preview (ls ! 0)) = PreviewPow pv \<and> pv_vertices pv = 3) \<and>
      vl_next (ls ! 1) = sv_blank \<and> vl_preview (ls ! 1) = sv_blank \<and>
      vl_next (ls ! 2) = sv_blank \<and> vl_preview (ls ! 2) = sv_blank)"
  using next_layers_suppressed [of example_map exact 1 "(0, 100, 255)"]
  by (auto simp add: example_map_def All_less_Suc eval_nat_numeral)

subsection \<open>The transition preview window\<close>

text \<open>
  Claim C2, as stated, fails. In the example the first segment is one bar of 4/4 at 120
  bpm and its successor has 3 beats per bar. The preview layer of the first segment has
  the duration 2, which is \<open>4 * 60 / 120\<close>, a bar of the current segment, and not
  \<open>3 * 60 / 120\<close>: both files take \<open>beats_per_bar\<close> from \<open>segment['sig'][0]\<close>; only the
  vertex count of the polygon comes from the successor.
\<close>

theorem preview_window_counterexample:
  "map_sum id (map ly_preview) (pm_timeline_layers exact 1 (0, 100, 255) example_map) =
     Inr [Some \<lparr>clip_start = 0, clip_duration = 2,
                clip_content = PreviewAcos \<lparr>pv_vertices = 3, pv_start = 0, pv_end = 2,
                                            pv_accent_color = (0, 100, 255)\<rparr>\<rparr>,
          None, None] \<and>
   map_sum id (map vl_preview) (sv_timeline_layers exact example_map) =
     Inr [\<lparr>clip_start = 0, clip_duration = 2,
           clip_content = PreviewPow \<lparr>pv_vertices = 3, pv_start = 0, pv_end = 2,
                                      pv_accent_color = (0, 100, 255)\<rparr>\<rparr>,
          sv_blank, sv_blank] \<and>
   (2 :: real) \<noteq> 3 * 60 / 120"
  by (simp add: tl_eval example_map_def exact_def ACCENT_COLOR_def)

text \<open>
  Claim C2, amended. In exact arithmetic, for every segment that gets a transition
  preview, the duration of the preview layer is \<open>beats_per_bar * 60 / bpm\<close> of the segment
  itself (one bar of the current segment), and the layer ends exactly at the start of
  the successor segment.
\<close>

theorem preview_window:
  assumes "ds \<noteq> []" and "\<forall>d\<in>set ds. d_bpm d \<noteq> 0"
  shows "(\<exists>segs ft ls. pm_get_segments exact ds = Inr (segs, ft) \<and>
            pm_timeline_layers exact scale acc ds = Inr ls \<and>
            (\<forall>i. Suc i < length ds \<longrightarrow>
               (\<exists>c. ly_preview (ls ! i) = Some c \<and>
                  clip_duration c = of_int (fst (seg_sig (segs ! i))) * 60 / seg_bpm (segs ! i) \<and>
                  clip_end exact c = seg_start (segs ! Suc i)))) \<and>
         (\<exists>segs ft ls. sv_unpack (sv_get_segments exact ds) = Inr (segs, ft) \<and>
            sv_timeline_layers exact ds = Inr ls \<and>
            (\<forall>i. Suc i < length ds \<longrightarrow>
               clip_duration (vl_preview (ls ! i))
                  = of_int (fst (seg_sig (segs ! i))) * 60 / seg_bpm (segs ! i) \<and>
               clip_end exact (vl_preview (ls ! i)) = seg_start (segs ! Suc i)))"
proof (intro conjI)
  from pm_layer_nth [OF assms, of 0 exact scale acc]
  obtain ls where ls: "pm_timeline_layers exact scale acc ds = Inr ls" by auto
  have "\<forall>i. Suc i < length ds \<longrightarrow>
               (\<exists>c. ly_preview (ls ! i) = Some c \<and>
                  clip_duration c = of_int (fst (seg_sig (pm_segs exact ds ! i))) * 60
                                      / seg_bpm (pm_segs exact ds ! i) \<and>
                  clip_end exact c = seg_start (pm_segs exact ds ! Suc i))"
  proof (intro allI impI)
    fix i assume i: "Suc i < length ds"
    then have i': "i < length ds" by simp
    show "\<exists>c. ly_preview (ls ! i) = Some c \<and>
                  clip_duration c = of_int (fst (seg_sig (pm_segs exact ds ! i))) * 60
                                      / seg_bpm (pm_segs exact ds ! i) \<and>
                  clip_end exact c = seg_start (pm_segs exact ds ! Suc i)"
      by (simp add: pm_layer_explicit(3) [OF assms i ls] pm_segs_nth [OF i'] pm_segs_nth [OF i]
          clip_end_def) (simp add: exact_def pm_bar_def)
  qed
  then show "\<exists>segs ft ls. pm_get_segments exact ds = Inr (segs, ft) \<and>
            pm_timeline_layers exact scale acc ds = Inr ls \<and>
            (\<forall>i. Suc i < length ds \<longrightarrow>
               (\<exists>c. ly_preview (ls ! i) = Some c \<and>
                  clip_duration c = of_int (fst (seg_sig (segs ! i))) * 60 / seg_bpm (segs ! i) \<and>
                  clip_end exact c = seg_start (segs ! Suc i)))"
    using ls by (simp add: pm_get_segments_closed [OF assms])
next
  from sv_layer_nth [OF assms, of 0 exact]
  obtain ls where ls: "sv_timeline_layers exact ds = Inr ls" by auto
  have "\<forall>i. Suc i < length ds \<longrightarrow>
               clip_duration (vl_preview (ls ! i))
                  = of_int (fst (seg_sig (sv_segs exact ds ! i))) * 60
                      / seg_bpm (sv_segs exact ds ! i) \<and>
               clip_end exact (vl_preview (ls ! i)) = seg_start (sv_segs exact ds ! Suc i)"
  proof (intro allI impI)
    fix i assume i: "Suc i < length ds"
    then have i': "i < length ds" by simp
    show "clip_duration (vl_preview (ls ! i))
                  = of_int (fst (seg_sig (sv_segs exact ds ! i))) * 60
                      / seg_bpm (sv_segs exact ds ! i) \<and>
               clip_end exact (vl_preview (ls ! i)) = seg_start (sv_segs exact ds ! Suc i)"
      by (simp add: sv_layer_explicit(2) [OF assms i ls] sv_segs_nth [OF i'] sv_segs_nth [OF i]
          clip_end_def) (simp add: exact_def pm_bar_def)
  qed
  then show "\<exists>segs ft ls. sv_unpack (sv_get_segments exact ds) = Inr (segs, ft) \<and>
            sv_timeline_layers exact ds = Inr ls \<and>
            (\<forall>i. Suc i < length ds \<longrightarrow>
               clip_duration (vl_preview (ls ! i))
                  = of_int (fst (seg_sig (segs ! i))) * 60 / seg_bpm (segs ! i) \<and>
               clip_end exact (vl_preview (ls ! i)) = seg_start (segs ! Suc i))"
    using ls by (simp add: sv_get_segments_closed [OF assms] sv_unpack_def)
qed

theorem preview_window_witness:
  "(\<exists>segs ft ls. pm_get_segments exact example_map = Inr (segs, ft) \<and>
      pm_timeline_layers exact 1 (0, 100, 255) example_map = Inr ls \<and>
      (\<exists>c. ly_preview (ls ! 0) = Some c \<and> clip_duration c = 4 * 60 / 120 \<and>
         clip_end exact c = seg_start (segs ! 1) \<and> seg_start (segs ! 1) = 2)) \<and>
   (\<exists>segs ft ls. sv_unpack (sv_get_segments exact example_map) = Inr (segs, ft) \<and>
      sv_timeline_layers exact example_map = Inr ls \<and>
      clip_duration (vl_preview (ls ! 0)) = 4 * 60 / 120 \<and>
      clip_end exact (vl_preview (ls ! 0)) = seg_start (segs ! 1) \<and> seg_start (segs ! 1) = 2)"
  using preview_window [of example_map 1 "(0, 100, 255)"]
  by (simp add: pm_example sv_example) (auto simp add: example_map_def)

subsection \<open>The progress indicator\<close>

text \<open>
  Claim C3, as stated, fails. The first segment of \<open>two_bar_map\<close> lasts 4 seconds, with
  beats of half a second, and has a progress indicator. At \<open>t = 3\<close> the rectangle is
  drawn in the accent colour although \<open>t > 4 - 0.5\<close> is false: the threshold of the
  source is \<open>segment['dur'] - segment['sig'][0] * 60 / segment['bpm']\<close>, one bar before the
  end of the segment, not one beat.
\<close>

theorem indicator_counterexample:
  "map_sum id (map ly_bar) (pm_timeline_layers exact 1 (0, 100, 255) two_bar_map) =
     Inr [Some \<lparr>clip_start = 0, clip_duration = 4,
                clip_content = BarIndicator
                  \<lparr>bi_dur = 4, bi_beats_per_bar = 4, bi_bpm = 120,
                   bi_accent_color = (0, 100, 255), bi_scale = 1\<rparr>\<rparr>,
          None, None] \<and>
   bar_make_frame exact
     \<lparr>bi_dur = 4, bi_beats_per_bar = 4, bi_bpm = 120, bi_accent_color = (0, 100, 255),
      bi_scale = 1\<rparr> 3 =
     Inr \<lparr>bf_corners = ((741 / 4, 14), (197, 17)), bf_color = (0, 100, 255)\<rparr> \<and>
   \<not> (4 - 60 / 120 < (3 :: real))"
  by (simp add: tl_eval two_bar_map_def exact_def bar_make_frame_def)

text \<open>
  Claim C3, amended. In exact arithmetic, for every segment with a progress indicator
  (every segment before the last authored one; polygonal_metre.py only) and every local
  time \<open>t\<close>, the rectangle is drawn in the accent colour if
  \<open>t > segmentDuration - beats_per_bar * 60 / bpm\<close>, that is within one bar of the
  segment's end, and in white otherwise. A segment of duration zero has no frame: the
  frame function divides by the duration.
\<close>

theorem indicator_colour:
  assumes "ds \<noteq> []" and "\<forall>d\<in>set ds. d_bpm d \<noteq> 0"
  shows "\<exists>segs ft ls. pm_get_segments exact ds = Inr (segs, ft) \<and>
           pm_timeline_layers exact scale acc ds = Inr ls \<and>
           (\<forall>i. Suc i < length ds \<longrightarrow>
              (\<exists>c bi. ly_bar (ls ! i) = Some c \<and> clip_content c = BarIndicator bi \<and>
                 clip_start c = seg_start (segs ! i) \<and> clip_duration c = seg_dur (segs ! i) \<and>
                 (\<forall>t. seg_dur (segs ! i) \<noteq> 0 \<longrightarrow>
                    (\<exists>fr. bar_make_frame exact bi t = Inr fr \<and>
                       bf_color fr =
                         (if seg_dur (segs ! i)
                               - of_int (fst (seg_sig (segs ! i))) * 60 / seg_bpm (segs ! i) < t
                          then acc else (255, 255, 255)))))) \<and>
           (\<forall>i. length ds \<le> Suc i \<and> i \<le> length ds \<longrightarrow> ly_bar (ls ! i) = None)"
proof -
  from pm_layer_nth [OF assms, of 0 exact scale acc]
  obtain ls where ls: "pm_timeline_layers exact scale acc ds = Inr ls" by auto
  have a: "\<forall>i. Suc i < length ds \<longrightarrow>
              (\<exists>c bi. ly_bar (ls ! i) = Some c \<and> clip_content c = BarIndicator bi \<and>
                 clip_start c = seg_start (pm_segs exact ds ! i) \<and>
                 clip_duration c = seg_dur (pm_segs exact ds ! i) \<and>
                 (\<forall>t. seg_dur (pm_segs exact ds ! i) \<noteq> 0 \<longrightarrow>
                    (\<exists>fr. bar_make_frame exact bi t = Inr fr \<and>
                       bf_color fr =
                         (if seg_dur (pm_segs exact ds ! i)
                               - of_int (fst (seg_sig (pm_segs exact ds ! i))) * 60
                                   / seg_bpm (pm_segs exact ds ! i) < t
                          then acc else (255, 255, 255)))))"
  proof (intro allI impI)
    fix i assume i: "Suc i < length ds"
    then have i': "i < length ds" by simp
    with assms(2) have nz: "d_bpm (ds ! i) \<noteq> 0" by simp
    show "\<exists>c bi. ly_bar (ls ! i) = Some c \<and> clip_content c = BarIndicator bi \<and>
                 clip_start c = seg_start (pm_segs exact ds ! i) \<and>
                 clip_duration c = seg_dur (pm_segs exact ds ! i) \<and>
                 (\<forall>t. seg_dur (pm_segs exact ds ! i) \<noteq> 0 \<longrightarrow>
                    (\<exists>fr. bar_make_frame exact bi t = Inr fr \<and>
                       bf_color fr =
                         (if seg_dur (pm_segs exact ds ! i)
                               - of_int (fst (seg_sig (pm_segs exact ds ! i))) * 60
                                   / seg_bpm (pm_segs exact ds ! i) < t
                          then acc else (255, 255, 255))))"
      using nz
      by (simp add: pm_layer_explicit(2) [OF assms i ls] pm_segs_nth [OF i']
          bar_make_frame_def fdiv_def)
        (simp add: exact_def)
  qed
  have b: "\<forall>i. length ds \<le> Suc i \<and> i \<le> length ds \<longrightarrow> ly_bar (ls ! i) = None"
    using pm_layer_suppressed(2) [OF assms _ _ ls] by simp
  from a b ls show ?thesis
    by (simp add: pm_get_segments_closed [OF assms])
qed

theorem indicator_colour_witness:
  "\<exists>segs ft ls. pm_get_segments exact two_bar_map = Inr (segs, ft) \<and>
     pm_timeline_layers exact 1 (0, 100, 255) two_bar_map = Inr ls \<and>
     (\<exists>c bi. ly_bar (ls ! 0) = Some c \<and> clip_content c = BarIndicator bi \<and>
        seg_dur (segs ! 0) = 4 \<and>
        (\<exists>fr. bar_make_frame exact bi 3 = Inr fr \<and> bf_color fr = (0, 100, 255)) \<and>
        (\<exists>fr. bar_make_frame exact bi 2 = Inr fr \<and> bf_color fr = (255, 255, 255))) \<and>
     ly_bar (ls ! 1) = None \<and> ly_bar (ls ! 2) = None"
proof -
  have pm: "pm_get_segments exact two_bar_map =
     Inr ([\<lparr>seg_start = 0, seg_end = 4, seg_dur = 4, seg_sig = (4, 4), seg_bpm = 120,
            seg_next = NextInfo (3, 4) 120\<rparr>,
           \<lparr>seg_start = 4, seg_end = 11 / 2, seg_dur = 3 / 2, seg_sig = (3, 4), seg_bpm = 120,
            seg_next = NextSeg 2\<rparr>,
           \<lparr>seg_start = 11 / 2, seg_end = 7, seg_dur = 3 / 2, seg_sig = (3, 4), seg_bpm = 120,
            seg_next = NoNext\<rparr>], 7)"
    by (simp add: pm_get_segments_def pm_init_def fdiv_def exact_def two_bar_map_def Let_def)
  have len: "length two_bar_map = 2" by (simp add: two_bar_map_def)
  have h: "two_bar_map \<noteq> []" "\<forall>d\<in>set two_bar_map. d_bpm d \<noteq> 0"
    by (simp_all add: two_bar_map_def)
  from indicator_colour [OF h, of 1 "(0, 100, 255)"]
  obtain segs ft ls where
    s: "pm_get_segments exact two_bar_map = Inr (segs, ft)"
    and l: "pm_timeline_layers exact 1 (0, 100, 255) two_bar_map = Inr ls"
    and a: "\<forall>i. Suc i < length two_bar_map \<longrightarrow>
              (\<exists>c bi. ly_bar (ls ! i) = Some c \<and> clip_content c = BarIndicator bi \<and>
                 clip_start c = seg_start (segs ! i) \<and> clip_duration c = seg_dur (segs ! i) \<and>
                 (\<forall>t. seg_dur (segs ! i) \<noteq> 0 \<longrightarrow>
                    (\<exists>fr. bar_make_frame exact bi t = Inr fr \<and>
                       bf_color fr =
                         (if seg_dur (segs ! i)
                               - of_int (fst (seg_sig (segs ! i))) * 60 / seg_bpm (segs ! i) < t
                          then (0, 100, 255) else (255, 255, 255)))))"
    and b: "\<forall>i. length two_bar_map \<le> Suc i \<and> i \<le> length two_bar_map \<longrightarrow> ly_bar (ls ! i) = None"
    by blast
  from s pm have segs: "segs = [\<lparr>seg_start = 0, seg_end = 4, seg_dur = 4, seg_sig = (4, 4), seg_bpm = 120,
            seg_next = NextInfo (3, 4) 120\<rparr>,
           \<lparr>seg_start = 4, seg_end = 11 / 2, seg_dur = 3 / 2, seg_sig = (3, 4), seg_bpm = 120,
            seg_next = NextSeg 2\<rparr>,
           \<lparr>seg_start = 11 / 2, seg_end = 7, seg_dur = 3 / 2, seg_sig = (3, 4), seg_bpm = 120,
            seg_next = NoNext\<rparr>]" by simp
  from a len obtain c bi where c: "ly_bar (ls ! 0) = Some c" "clip_content c = BarIndicator bi"
    and fr: "\<forall>t. seg_dur (segs ! 0) \<noteq> 0 \<longrightarrow>
                    (\<exists>fr. bar_make_frame exact bi t = Inr fr \<and>
                       bf_color fr =
                         (if seg_dur (segs ! 0)
                               - of_int (fst (seg_sig (segs ! 0))) * 60 / seg_bpm (segs ! 0) < t
                          then (0, 100, 255) else (255, 255, 255)))"
    by force
  from fr [rule_format, of 3] fr [rule_format, of 2] b len c s l show ?thesis
    by (simp add: segs) 
qed

section \<open>Properties of the frame functions\<close>

lemmas frame_eval = polygon_make_frame_def fmod_def fdiv_def slice_color_def beats_ago_of_def
  slice_rgb_def brightness_of_def py_int_def Let_def

lemma upto_0_3: "[0..3::int] = [0, 1, 2, 3]"
  by (simp add: upto_rec1)

lemma py_int_of_int [simp]: "py_int (of_int n) = n"
  by (simp add: py_int_def)

lemma fading_slices_ok:
  assumes "\<forall>i\<in>set is. slice_color rnd pf bp ph i = Inr (f i)"
  shows "fading_slices rnd pf bp ph is =
           Inr (concat (map (\<lambda>i. case f i of None \<Rightarrow> [] | Some col \<Rightarrow> [(i, col)]) is))"
  using assms by (induction "is") simp_all

lemma concat_map_option:
  "concat (map (\<lambda>i. case (if P i then Some (c i) else None) of
                        None \<Rightarrow> [] | Some col \<Rightarrow> [(i, col)]) is)
     = map (\<lambda>i. (i, c i)) (filter P is)"
  by (induction "is") simp_all

lemma filter_bar_start:
  assumes "1 \<le> fade" and "fade \<le> bpb"
  shows "filter (\<lambda>i. i = 0 \<or> bpb - fade < i) [0..bpb - 1] = 0 # [bpb - fade + 1..bpb - 1]"
proof (rule sorted_distinct_set_unique)
  show "sorted (filter (\<lambda>i. i = 0 \<or> bpb - fade < i) [0..bpb - 1])"
    by (simp add: sorted_wrt_filter)
  show "distinct (filter (\<lambda>i. i = 0 \<or> bpb - fade < i) [0..bpb - 1])" by simp
  show "sorted (0 # [bpb - fade + 1..bpb - 1])" using assms by auto
  show "distinct (0 # [bpb - fade + 1..bpb - 1])" using assms by auto
  show "set (filter (\<lambda>i. i = 0 \<or> bpb - fade < i) [0..bpb - 1])
          = set (0 # [bpb - fade + 1..bpb - 1])"
    using assms by auto
qed

lemma slice_color_bar_start:
  assumes nl: "\<not> pf_last pf" and f1: "1 \<le> pf_fade_beats pf"
    and k: "1 \<le> k" and i0: "0 \<le> i" and i1: "i < pf_beats_per_bar pf"
  shows "slice_color exact pf (of_int k * of_int (pf_beats_per_bar pf)) 0 i =
           Inr (if i = 0 \<or> pf_beats_per_bar pf - pf_fade_beats pf < i
                then Some (if i = 0 then pf_accent_color pf
                           else (let b = \<lfloor>255 * (1 - of_int (pf_beats_per_bar pf - i)
                                                         / of_int (pf_fade_beats pf) :: real)\<rfloor>
                                 in (b, b, b)))
                else None)"
proof -
  let ?n = "pf_beats_per_bar pf" and ?f = "pf_fade_beats pf"
  from i0 i1 have n: "0 < ?n" by simp
  with k have "1 * ?n \<le> k * ?n" by (intro mult_right_mono) simp_all
  with i1 have "i < k * ?n" by simp
  then have "(of_int i :: real) < of_int (k * ?n)" by (simp only: of_int_less_iff)
  then have pos: "\<not> (of_int k * of_int ?n - of_int i :: real) < 0" by simp
  from f1 have fz: "(of_int ?f :: real) \<noteq> 0" by simp
  show ?thesis
  proof (cases "i = 0")
    case True
    with f1 nl pos show ?thesis
      by (cases "pf_accent_color pf")
        (simp add: slice_color_def beats_ago_of_def exact_def fdiv_def slice_rgb_def Let_def)
  next
    case False
    with i0 have ip: "0 < i" by simp
    define a where "a = ?n - i"
    define q :: real where "q = of_int a / of_int ?f"
    have ba: "beats_ago_of exact pf 0 i = of_int a"
      using ip by (simp add: beats_ago_of_def exact_def a_def)
    have cond: "a < ?f \<longleftrightarrow> ?n - ?f < i"
      by (auto simp add: a_def)
    have fd: "fdiv exact (of_int a) (of_int ?f) = Inr q"
      using fz by (simp add: fdiv_def exact_def q_def)
    have rgb: "slice_rgb exact pf i (1 - q) = (let b = \<lfloor>255 * (1 - q)\<rfloor> in (b, b, b))"
      if "?n - ?f < i"
    proof -
      from that have "a \<le> ?f" by (simp add: a_def)
      then have "(of_int a :: real) \<le> of_int ?f" by (simp only: of_int_le_iff)
      with f1 have "q \<le> 1" by (simp add: q_def)
      then have "0 \<le> 255 * (1 - q)" by simp
      with False nl show ?thesis
        by (simp add: slice_rgb_def brightness_of_def py_int_def exact_def Let_def)
    qed
    have "slice_color exact pf (of_int k * of_int ?n) 0 i =
            Inr (if ?n - ?f < i then Some (let b = \<lfloor>255 * (1 - q)\<rfloor> in (b, b, b)) else None)"
      using nl pos rgb by (simp add: slice_color_def ba cond fd exact_def)
    with False show ?thesis by (simp add: q_def a_def)
  qed
qed

subsection \<open>The polygon at the start of a bar\<close>

text \<open>
  Claim C6, as stated, fails. The first segment of the example is one bar of four beats
  of half a second, so its filler has the duration 2. At \<open>t = 1 * 4 * 0.5 = 2\<close> only
  slice 0 is filled: \<open>t % bar_duration\<close> is 0 there, \<open>beat_pos\<close> is 0, and the slices 1 to 3
  are skipped as not yet started. The \<open>bar_duration\<close> that \<open>_polygon_clip\<close> passes is the
  duration of the whole segment, so the beat position restarts whenever \<open>t\<close> is a multiple
  of the segment duration.
\<close>

theorem bar_start_counterexample:
  "make_polygon_filler exact 4 120 2 (0, 100, 255) False 3 =
     Inr \<lparr>clip_start = 0, clip_duration = 2, clip_content = PolygonFill one_bar_filler\<rparr> \<and>
   (2 :: real) = 1 * 4 * pf_beat_duration one_bar_filler \<and>
   polygon_make_frame exact one_bar_filler 2 = Inr [(0, (0, 100, 255))] \<and>
   polygon_make_frame round_double one_bar_filler 2 = Inr [(0, (0, 100, 255))]"
  by (simp add: make_polygon_filler_def one_bar_filler_def frame_eval exact_def rd_eval upto_0_3)

text \<open>
  Claim C6, amended. In exact arithmetic, for a non-terminal polygon filler with
  \<open>1 \<le> fade_beats \<le> beats_per_bar\<close> and a positive beat duration, at a local time
  \<open>t = k * beats_per_bar * beat_duration\<close> with an integer \<open>k \<ge> 1\<close> that lies inside the
  clip (\<open>t < bar_duration\<close>, the segment duration): slice 0 is filled with the accent
  colour at full brightness, the \<open>fade_beats - 1\<close> slices before it (the indices from
  \<open>beats_per_bar - fade_beats + 1\<close> to \<open>beats_per_bar - 1\<close>) are filled with a grey below
  full brightness, and no other slice is filled.
\<close>

theorem bar_start_slices:
  assumes "\<not> pf_last pf" and "1 \<le> pf_fade_beats pf"
    and "pf_fade_beats pf \<le> pf_beats_per_bar pf" and "0 < pf_beat_duration pf"
    and "1 \<le> k" and "t = of_int k * of_int (pf_beats_per_bar pf) * pf_beat_duration pf"
    and "t < pf_bar_duration pf"
  shows "polygon_make_frame exact pf t =
           Inr ((0, pf_accent_color pf) #
                map (\<lambda>i. (i, let b = \<lfloor>255 * (1 - of_int (pf_beats_per_bar pf - i)
                                                    / of_int (pf_fade_beats pf) :: real)\<rfloor>
                            in (b, b, b)))
                  [pf_beats_per_bar pf - pf_fade_beats pf + 1..pf_beats_per_bar pf - 1]) \<and>
         (\<forall>i\<in>set [pf_beats_per_bar pf - pf_fade_beats pf + 1..pf_beats_per_bar pf - 1].
            0 \<le> \<lfloor>255 * (1 - of_int (pf_beats_per_bar pf - i) / of_int (pf_fade_beats pf) :: real)\<rfloor> \<and>
            \<lfloor>255 * (1 - of_int (pf_beats_per_bar pf - i) / of_int (pf_fade_beats pf) :: real)\<rfloor> < 255) \<and>
         length [pf_beats_per_bar pf - pf_fade_beats pf + 1..pf_beats_per_bar pf - 1]
           = nat (pf_fade_beats pf - 1)"
proof (intro conjI ballI)
  let ?n = "pf_beats_per_bar pf" and ?f = "pf_fade_beats pf"
  let ?bd = "pf_beat_duration pf" and ?D = "pf_bar_duration pf"
  let ?gray = "\<lambda>i. let b = \<lfloor>255 * (1 - of_int (?n - i) / of_int ?f :: real)\<rfloor> in (b, b, b)"
  let ?kn = "of_int k * of_int ?n :: real"
  from assms(2,3) have n: "1 \<le> ?n" by simp
  have kn: "0 < ?kn" using assms(5) n by simp
  then have t0: "0 < t" using assms(4,6) by simp
  with assms(7) have D: "0 < ?D" by simp
  from t0 assms(7) D have "0 \<le> t / ?D" "t / ?D < 1" by simp_all
  then have fl: "\<lfloor>t / ?D\<rfloor> = 0" by (simp add: floor_eq_iff)
  have m: "fmod exact t ?D = Inr t" using D by (simp add: fmod_def exact_def fl)
  have bp: "fdiv exact t ?bd = Inr ?kn"
    using assms(4,6) by (simp add: fdiv_def exact_def)
  have "?kn / of_int ?n = of_int k" using n by simp
  then have fl2: "\<lfloor>?kn / of_int ?n\<rfloor> = k" by simp
  have ph: "fmod exact ?kn (of_int ?n) = Inr 0"
    using n unfolding fmod_def exact_def fl2 by simp
  have sl: "\<forall>i\<in>set [0..?n - 1]. slice_color exact pf ?kn 0 i =
           Inr (if i = 0 \<or> ?n - ?f < i
                then Some (if i = 0 then pf_accent_color pf else ?gray i) else None)"
    using slice_color_bar_start [OF assms(1,2,5)] by simp
  have "polygon_make_frame exact pf t = fading_slices exact pf ?kn 0 [0..?n - 1]"
    using n by (simp add: polygon_make_frame_def m bp ph)
  also have "\<dots> = Inr (map (\<lambda>i. (i, if i = 0 then pf_accent_color pf else ?gray i))
                 (filter (\<lambda>i. i = 0 \<or> ?n - ?f < i) [0..?n - 1]))"
    unfolding fading_slices_ok [OF sl] concat_map_option ..
  also have "filter (\<lambda>i. i = 0 \<or> ?n - ?f < i) [0..?n - 1] = 0 # [?n - ?f + 1..?n - 1]"
    using assms(2,3) by (rule filter_bar_start)
  also have "map (\<lambda>i. (i, if i = 0 then pf_accent_color pf else ?gray i)) (0 # [?n - ?f + 1..?n - 1])
               = (0, pf_accent_color pf) # map (\<lambda>i. (i, ?gray i)) [?n - ?f + 1..?n - 1]"
    using assms(3) by simp
  finally show "polygon_make_frame exact pf t =
           Inr ((0, pf_accent_color pf) # map (\<lambda>i. (i, ?gray i)) [?n - ?f + 1..?n - 1])" .
  show "length [?n - ?f + 1..?n - 1] = nat (?f - 1)" by simp
  fix i assume "i \<in> set [?n - ?f + 1..?n - 1]"
  then have i: "?n - ?f < i" "i < ?n" by simp_all
  define q :: real where "q = of_int (?n - i) / of_int ?f"
  from assms(2) have fp: "0 < (of_int ?f :: real)" by simp
  from i have "0 < ?n - i" "?n - i \<le> ?f" by simp_all
  then have "0 < (of_int (?n - i) :: real)" "(of_int (?n - i) :: real) \<le> of_int ?f"
    by (simp_all only: of_int_0_less_iff of_int_le_iff)
  with fp have q: "0 < q" "q \<le> 1" by (simp_all add: q_def)
  then have "0 \<le> 255 * (1 - q)" and "255 * (1 - q) < 255" by simp_all
  then have "0 \<le> \<lfloor>255 * (1 - q)\<rfloor>" and "\<lfloor>255 * (1 - q)\<rfloor> < 255"
    by (simp_all add: floor_less_iff)
  then show "0 \<le> \<lfloor>255 * (1 - of_int (?n - i) / of_int ?f :: real)\<rfloor>"
    and "\<lfloor>255 * (1 - of_int (?n - i) / of_int ?f :: real)\<rfloor> < 255"
    by (simp_all only: q_def)
qed

theorem bar_start_slices_witness:
  "make_polygon_filler exact 4 120 4 (0, 100, 255) False 3 =
     Inr \<lparr>clip_start = 0, clip_duration = 4, clip_content = PolygonFill two_bar_filler\<rparr> \<and>
   polygon_make_frame exact two_bar_filler 2 =
     Inr [(0, (0, 100, 255)), (2, (85, 85, 85)), (3, (170, 170, 170))]"
proof -
  have h: "\<not> pf_last two_bar_filler" "1 \<le> pf_fade_beats two_bar_filler"
    "pf_fade_beats two_bar_filler \<le> pf_beats_per_bar two_bar_filler"
    "0 < pf_beat_duration two_bar_filler" "(1 :: int) \<le> 1"
    "2 = of_int 1 * of_int (pf_beats_per_bar two_bar_filler) * pf_beat_duration two_bar_filler"
    "2 < pf_bar_duration two_bar_filler"
    by (simp_all add: two_bar_filler_def)
  have r: "[pf_beats_per_bar two_bar_filler - pf_fade_beats two_bar_filler + 1..
            pf_beats_per_bar two_bar_filler - 1] = [2, 3]"
    by (simp add: two_bar_filler_def upto_rec1)
  have v: "pf_beats_per_bar two_bar_filler = 4" "pf_fade_beats two_bar_filler = 3"
    "pf_accent_color two_bar_filler = (0, 100, 255)"
    by (simp_all add: two_bar_filler_def)
  have "polygon_make_frame exact two_bar_filler 2 =
     Inr [(0, (0, 100, 255)), (2, (85, 85, 85)), (3, (170, 170, 170))]"
    using bar_start_slices [OF h] unfolding r by (simp add: v)
  then show ?thesis
    by (simp add: two_bar_filler_def make_polygon_filler_def fdiv_def exact_def)
qed

subsection \<open>The brightness of a slice\<close>

text \<open>
  Claim C8, as stated, fails. In the first segment of the example at \<open>t = 17/32\<close>
  slice 1 started a sixteenth of a beat ago, so \<open>255 * x = 249.6875\<close>. The nearest integer
  is 250, and the slice is filled with the grey 249: \<open>int(255 * fade)\<close> truncates. The
  result is the same in exact arithmetic and in double precision.
\<close>

theorem brightness_counterexample:
  "polygon_make_frame exact one_bar_filler (17 / 32) =
     Inr [(0, (0, 64, 164)), (1, (249, 249, 249))] \<and>
   polygon_make_frame round_double one_bar_filler (17 / 32) =
     Inr [(0, (0, 64, 164)), (1, (249, 249, 249))] \<and>
   beats_ago_of exact one_bar_filler (17 / 16) 1 = 1 / 16 \<and>
   brightness_of exact (1 - (1 / 16) / 3) = 249 \<and>
   round (255 * (1 - (1 / 16) / 3) :: real) = 250"
  by (simp add: one_bar_filler_def frame_eval exact_def rd_eval round_def upto_0_3)

text \<open>
  Claim C8, amended. In exact arithmetic, for every slice that is drawn by a
  non-terminal filler with \<open>beats_ago\<close> in \<open>[0, fade_beats)\<close>: with
  \<open>x = 1 - beats_ago / fade_beats\<close>, which lies in \<open>(0, 1]\<close>, the brightness is \<open>255 * x\<close>
  rounded down to an integer; the colour of the slice is the grey of that brightness,
  except for slice 0, whose colour is the accent colour with each channel multiplied by
  \<open>x\<close> and truncated.
\<close>

theorem slice_brightness:
  assumes "\<not> pf_last pf"
    and "slice_color exact pf beat_pos beat_phase i = Inr (Some c)"
    and "0 \<le> beats_ago_of exact pf beat_phase i"
  shows "let beats_ago = beats_ago_of exact pf beat_phase i;
             x = 1 - beats_ago / of_int (pf_fade_beats pf)
         in beats_ago < of_int (pf_fade_beats pf) \<and> 0 < x \<and> x \<le> 1 \<and>
            brightness_of exact x = \<lfloor>255 * x\<rfloor> \<and>
            c = (if i = 0
                 then (case pf_accent_color pf of
                         (r, g, b) \<Rightarrow> (py_int (of_int r * x), py_int (of_int g * x),
                                      py_int (of_int b * x)))
                 else (\<lfloor>255 * x\<rfloor>, \<lfloor>255 * x\<rfloor>, \<lfloor>255 * x\<rfloor>))"
proof -
  define ba where "ba = beats_ago_of exact pf beat_phase i"
  define f :: real where "f = of_int (pf_fade_beats pf)"
  define x where "x = 1 - ba / f"
  from assms(1,2) have lt: "ba < f"
    by (auto simp add: slice_color_def Let_def ba_def f_def split: if_splits)
  with assms(3) have fpos: "0 < f" by (simp add: ba_def)
  from lt fpos assms(3) have q: "0 \<le> ba / f" "ba / f < 1" by (simp_all add: ba_def)
  then have x: "0 < x" "x \<le> 1" by (simp_all add: x_def)
  then have nn: "0 \<le> 255 * x" by simp
  then have br: "brightness_of exact x = \<lfloor>255 * x\<rfloor>"
    by (simp add: brightness_of_def py_int_def exact_def)
  from assms(1,2) lt fpos have "c = slice_rgb exact pf i x"
    by (auto simp add: slice_color_def Let_def fdiv_def exact_def x_def
        simp flip: ba_def f_def split: if_splits)
  then have c: "c = (if i = 0
                 then (case pf_accent_color pf of
                         (r, g, b) \<Rightarrow> (py_int (of_int r * x), py_int (of_int g * x),
                                      py_int (of_int b * x)))
                 else (\<lfloor>255 * x\<rfloor>, \<lfloor>255 * x\<rfloor>, \<lfloor>255 * x\<rfloor>))"
    using assms(1) br by (simp add: slice_rgb_def exact_def Let_def)
  from lt x br c show ?thesis
    unfolding Let_def by (simp only: ba_def f_def x_def simp_thms)
qed

theorem slice_brightness_witness:
  "slice_color exact one_bar_filler (17 / 16) (17 / 16) 1 = Inr (Some (249, 249, 249)) \<and>
   beats_ago_of exact one_bar_filler (17 / 16) 1 = 1 / 16 \<and>
   brightness_of exact (1 - (1 / 16) / 3) = \<lfloor>255 * (1 - (1 / 16) / 3 :: real)\<rfloor> \<and>
   \<lfloor>255 * (1 - (1 / 16) / 3 :: real)\<rfloor> = 249"
proof -
  have s: "slice_color exact one_bar_filler (17 / 16) (17 / 16) 1 = Inr (Some (249, 249, 249))"
    by (simp add: one_bar_filler_def frame_eval exact_def)
  have b: "beats_ago_of exact one_bar_filler (17 / 16) 1 = 1 / 16"
    by (simp add: one_bar_filler_def frame_eval exact_def)
  have n: "\<not> pf_last one_bar_filler" by (simp add: one_bar_filler_def)
  have f: "pf_fade_beats one_bar_filler = 3" by (simp add: one_bar_filler_def)
  from slice_brightness [OF n s] b s show ?thesis
    by (simp add: Let_def f)
qed

subsection \<open>The domain of the acos easing\<close>

text \<open>
  Claim C10. For the transition preview of polygonal_metre.py with a positive window
  \<open>preview_end - preview_start\<close> (and a vertex count that is not negative), in exact
  arithmetic: for \<open>0 \<le> t \<le> window\<close> the argument \<open>1 - 2 * (t / window)\<close> of \<open>acos\<close> lies in
  \<open>[-1, 1]\<close>, the frame function returns, and the opacity lies in \<open>[0, 1]\<close>; for
  \<open>t > window\<close> the argument is below \<open>-1\<close> and the frame function fails with the math
  domain error of \<open>math.acos\<close>.
\<close>

theorem acos_preview_domain:
  assumes "0 < pv_end pv - pv_start pv" and "0 \<le> pv_vertices pv"
  shows "(0 \<le> t \<and> t \<le> pv_end pv - pv_start pv \<longrightarrow>
            - 1 \<le> 1 - 2 * (t / (pv_end pv - pv_start pv)) \<and>
            1 - 2 * (t / (pv_end pv - pv_start pv)) \<le> 1 \<and>
            (\<exists>fr. preview_make_frame exact pv t = Inr fr \<and>
               vf_opacity fr = (1 / pi) * arccos (1 - 2 * (t / (pv_end pv - pv_start pv))) \<and>
               0 \<le> vf_opacity fr \<and> vf_opacity fr \<le> 1)) \<and>
         (pv_end pv - pv_start pv < t \<longrightarrow>
            1 - 2 * (t / (pv_end pv - pv_start pv)) < - 1 \<and>
            preview_make_frame exact pv t = Inl ValueError)"
proof (intro conjI impI)
  let ?w = "pv_end pv - pv_start pv"
  let ?a = "1 - 2 * (t / ?w)"
  assume t: "0 \<le> t \<and> t \<le> ?w"
  with assms(1) have q: "0 \<le> t / ?w" "t / ?w \<le> 1" by simp_all
  then show lo: "- 1 \<le> ?a" and hi: "?a \<le> 1" by simp_all
  have a0: "0 \<le> arccos ?a" using lo hi by (rule arccos_lbound)
  have a1: "arccos ?a \<le> pi" using lo hi by (rule arccos_ubound)
  have o0: "0 \<le> (1 / pi) * arccos ?a" using a0 by simp
  have "(1 / pi) * arccos ?a \<le> (1 / pi) * pi"
    using a1 by (intro mult_left_mono) simp_all
  then have o1: "(1 / pi) * arccos ?a \<le> 1" by simp
  have "preview_make_frame exact pv t =
          Inr \<lparr>vf_vertices = pv_vertices pv, vf_opacity = (1 / pi) * arccos ?a,
               vf_outline = (pv_accent_color pv, py_int (255 * ((1 / pi) * arccos ?a)))\<rparr>"
    using assms lo hi by (simp add: preview_make_frame_def fdiv_def acos_py_def exact_def Let_def)
  with o0 o1 show "\<exists>fr. preview_make_frame exact pv t = Inr fr \<and>
               vf_opacity fr = (1 / pi) * arccos ?a \<and> 0 \<le> vf_opacity fr \<and> vf_opacity fr \<le> 1"
    by simp
next
  let ?w = "pv_end pv - pv_start pv"
  assume t: "?w < t"
  with assms(1) have "1 < t / ?w" by simp
  then show lt: "1 - 2 * (t / ?w) < - 1" by simp
  then show "preview_make_frame exact pv t = Inl ValueError"
    using assms by (simp add: preview_make_frame_def fdiv_def acos_py_def exact_def)
qed

theorem acos_preview_domain_witness:
  "map_sum id (map ly_preview) (pm_timeline_layers exact 1 (0, 100, 255) example_map) =
     Inr [Some \<lparr>clip_start = 0, clip_duration = 2,
                clip_content = PreviewAcos \<lparr>pv_vertices = 3, pv_start = 0, pv_end = 2,
                                            pv_accent_color = (0, 100, 255)\<rparr>\<rparr>,
          None, None] \<and>
   preview_make_frame exact
     \<lparr>pv_vertices = 3, pv_start = 0, pv_end = 2, pv_accent_color = (0, 100, 255)\<rparr> 1
     = Inr \<lparr>vf_vertices = 3, vf_opacity = 1 / 2, vf_outline = ((0, 100, 255), 127)\<rparr> \<and>
   preview_make_frame exact
     \<lparr>pv_vertices = 3, pv_start = 0, pv_end = 2, pv_accent_color = (0, 100, 255)\<rparr> 3
     = Inl ValueError"
proof -
  let ?pv = "\<lparr>pv_vertices = 3, pv_start = 0, pv_end = 2, pv_accent_color = (0, 100, 255)\<rparr>"
  have w: "0 < pv_end ?pv - pv_start ?pv" "0 \<le> pv_vertices ?pv" by simp_all
  from acos_preview_domain [OF w, of 3]
  have err: "preview_make_frame exact ?pv 3 = Inl ValueError" by simp
  have "preview_make_frame exact ?pv 1
     = Inr \<lparr>vf_vertices = 3, vf_opacity = 1 / 2, vf_outline = ((0, 100, 255), 127)\<rparr>"
    by (simp add: preview_make_frame_def fdiv_def acos_py_def exact_def py_int_def)
  with err show ?thesis
    by (simp add: tl_eval example_map_def exact_def)
qed

end
